theory Spec2Isabelle
  imports Complex_Main
begin

section \<open>The reactive data pipeline of \<^verbatim>\<open>reporting/dashboard.py\<close>\<close>

text \<open>
  The dashboard loads closing prices per ticker from CSV files, joins two tickers into
  one frame with return columns, and reacts to two kinds of events: a ticker chooser
  changes, or the brushed selection changes. The embedding follows the source function
  by function. The pieces of pandas and \<^verbatim>\<open>functools\<close> the source calls are
  modelled first; floating-point numbers are real numbers and \<^verbatim>\<open>NaN\<close> is
  \<open>None\<close>.
\<close>

subsection \<open>Values, errors and frames\<close>

type_synonym date = nat
type_synonym cell = "real option"

text \<open>The exceptions the modelled calls can raise.\<close>

datatype error = FileNotFoundError | InvalidIndexError | ValueError | KeyError | IndexError

text \<open>
  A \<^verbatim>\<open>pandas.DataFrame\<close>: the row labels and the named columns, in column order.
  Column names may repeat, as in pandas.
\<close>

record dataframe =
  df_index :: "date list"
  df_columns :: "(string \<times> cell list) list"

definition bind_err :: "error + 'a \<Rightarrow> ('a \<Rightarrow> error + 'b) \<Rightarrow> error + 'b" where
  "bind_err r f = (case r of Inl e \<Rightarrow> Inl e | Inr x \<Rightarrow> f x)"

subsection \<open>The pandas operations the source uses\<close>

text \<open>\<^verbatim>\<open>Series.diff()\<close>: the first entry is undefined, every other entry is the
  difference to the entry before it (undefined when either is).\<close>

definition minus_cell :: "cell \<Rightarrow> cell \<Rightarrow> cell" where
  "minus_cell a b = (case a of None \<Rightarrow> None
                     | Some u \<Rightarrow> (case b of None \<Rightarrow> None | Some v \<Rightarrow> Some (u - v)))"

fun diff :: "cell list \<Rightarrow> cell list" where
  "diff [] = []"
| "diff (x # xs) = None # map2 minus_cell xs (x # xs)"

text \<open>Aligning a column labelled by \<open>old\<close> to the labels \<open>new\<close>: a label the column
  does not have gives an undefined cell.\<close>

definition reindex :: "date list \<Rightarrow> date list \<Rightarrow> cell list \<Rightarrow> cell list" where
  "reindex old new vals =
     map (\<lambda>d. case map_of (zip old vals) d of None \<Rightarrow> None | Some v \<Rightarrow> v) new"

text \<open>
  \<^verbatim>\<open>pd.concat([df1, df2], axis=1)\<close>: an outer join on the row labels. Frames with
  equal labels are put side by side as they are. Otherwise the labels of each frame
  must be unique (pandas raises \<^verbatim>\<open>InvalidIndexError\<close> when it has to reindex on
  duplicate labels), and the result is labelled by the sorted union of the labels.
\<close>

definition concat_axis1 :: "dataframe \<Rightarrow> dataframe \<Rightarrow> error + dataframe" where
  "concat_axis1 df1 df2 =
     (if df_index df1 = df_index df2 then
        Inr \<lparr>df_index = df_index df1, df_columns = df_columns df1 @ df_columns df2\<rparr>
      else if distinct (df_index df1) \<and> distinct (df_index df2) then
        (let idx = sort (remdups (df_index df1 @ df_index df2)) in
         Inr \<lparr>df_index = idx,
              df_columns =
                map (\<lambda>c. (fst c, reindex (df_index df1) idx (snd c))) (df_columns df1) @
                map (\<lambda>c. (fst c, reindex (df_index df2) idx (snd c))) (df_columns df2)\<rparr>)
      else Inl InvalidIndexError)"

text \<open>Taking the rows at the given positions, in the given order.\<close>

definition take_rows :: "nat list \<Rightarrow> dataframe \<Rightarrow> dataframe" where
  "take_rows ps df =
     \<lparr>df_index = map ((!) (df_index df)) ps,
      df_columns = map (\<lambda>c. (fst c, map ((!) (snd c)) ps)) (df_columns df)\<rparr>"

text \<open>\<^verbatim>\<open>DataFrame.dropna()\<close>: keeps the rows that are defined in every column.\<close>

definition row_defined :: "(string \<times> cell list) list \<Rightarrow> nat \<Rightarrow> bool" where
  "row_defined cols i = list_all (\<lambda>c. snd c ! i \<noteq> None) cols"

definition dropna :: "dataframe \<Rightarrow> dataframe" where
  "dropna df = take_rows (filter (row_defined (df_columns df)) [0..<length (df_index df)]) df"

text \<open>
  \<^verbatim>\<open>data[k]\<close> where a single column is expected. A missing name raises
  \<^verbatim>\<open>KeyError\<close>. A repeated name makes pandas return a frame of several columns,
  and assigning that frame to one column raises \<^verbatim>\<open>ValueError\<close>: the source only
  reads a column in order to assign it, so the two steps fail together here.
\<close>

definition getitem :: "dataframe \<Rightarrow> string \<Rightarrow> error + cell list" where
  "getitem df k =
     (case filter (\<lambda>c. fst c = k) (df_columns df) of
        [] \<Rightarrow> Inl KeyError
      | [c] \<Rightarrow> Inr (snd c)
      | _ \<Rightarrow> Inl ValueError)"

text \<open>\<^verbatim>\<open>data[k] = vals\<close>: replaces the columns of that name, or appends a new
  column.\<close>

definition setitem :: "dataframe \<Rightarrow> string \<Rightarrow> cell list \<Rightarrow> dataframe" where
  "setitem df k vals =
     (if k \<in> fst ` set (df_columns df)
      then df\<lparr>df_columns := map (\<lambda>c. if fst c = k then (k, vals) else c) (df_columns df)\<rparr>
      else df\<lparr>df_columns := df_columns df @ [(k, vals)]\<rparr>)"

text \<open>\<^verbatim>\<open>data[[k1, k2, ...]]\<close>: the columns of these names in the order asked for;
  \<^verbatim>\<open>KeyError\<close> when a name is missing.\<close>

definition select_columns :: "dataframe \<Rightarrow> string list \<Rightarrow> error + dataframe" where
  "select_columns df ks =
     (if list_all (\<lambda>k. k \<in> fst ` set (df_columns df)) ks
      then Inr (df\<lparr>df_columns :=
                  concat (map (\<lambda>k. filter (\<lambda>c. fst c = k) (df_columns df)) ks)\<rparr>)
      else Inl KeyError)"

text \<open>
  \<^verbatim>\<open>data.iloc[selected, :]\<close> with a list of integer positions: a position outside
  \<open>[-n, n)\<close> raises \<^verbatim>\<open>IndexError\<close>; a negative position counts from the end; the
  rows come in the order of the list.
\<close>

definition iloc :: "dataframe \<Rightarrow> int list \<Rightarrow> error + dataframe" where
  "iloc df selected =
     (let n = int (length (df_index df)) in
      if list_ex (\<lambda>i. n \<le> i \<or> i < - n) selected then Inl IndexError
      else Inr (take_rows (map (\<lambda>i. nat (if i < 0 then i + n else i)) selected) df))"

subsection \<open>\<^verbatim>\<open>DataFrame.describe()\<close>\<close>

record col_stats =
  st_count :: nat
  st_mean :: cell
  st_std :: cell
  st_min :: cell
  st_q25 :: cell
  st_q50 :: cell
  st_q75 :: cell
  st_max :: cell

text \<open>The defined values of a column: every statistic skips undefined cells.\<close>

definition defined_values :: "cell list \<Rightarrow> real list" where
  "defined_values vals = map the (filter (\<lambda>v. v \<noteq> None) vals)"

text \<open>A quantile by linear interpolation between the two nearest order statistics.\<close>

definition quantile :: "real \<Rightarrow> real list \<Rightarrow> cell" where
  "quantile q xs =
     (if xs = [] then None
      else (let s = sort xs; pos = q * real (length s - 1); lo = nat \<lfloor>pos\<rfloor>;
                hi = min (lo + 1) (length s - 1)
            in Some (s ! lo + (pos - real lo) * (s ! hi - s ! lo))))"

definition describe_column :: "cell list \<Rightarrow> col_stats" where
  "describe_column vals =
     (let xs = defined_values vals; n = length xs; m = sum_list xs / real n in
      \<lparr>st_count = n,
       st_mean = (if n = 0 then None else Some m),
       st_std = (if n \<le> 1 then None
                 else Some (sqrt (sum_list (map (\<lambda>x. (x - m)\<^sup>2) xs) / real (n - 1)))),
       st_min = (if n = 0 then None else Some (hd (sort xs))),
       st_q25 = quantile (1 / 4) xs,
       st_q50 = quantile (1 / 2) xs,
       st_q75 = quantile (3 / 4) xs,
       st_max = (if n = 0 then None else Some (last (sort xs)))\<rparr>)"

definition describe :: "dataframe \<Rightarrow> (string \<times> col_stats) list" where
  "describe df = map (\<lambda>c. (fst c, describe_column (snd c))) (df_columns df)"

subsection \<open>\<^verbatim>\<open>functools.lru_cache()\<close>\<close>

text \<open>
  Both loaders are decorated with \<^verbatim>\<open>@lru_cache()\<close>, whose default capacity is
  128 entries. A cache is the list of its entries, most recently used first. A hit moves
  the entry to the front; storing into a full cache drops the least recently used entry.
  A call that raises stores nothing.
\<close>

definition maxsize :: nat where
  "maxsize = 128"

definition lru_hit :: "'k \<Rightarrow> ('k \<times> 'v) list \<Rightarrow> ('v \<times> ('k \<times> 'v) list) option" where
  "lru_hit k c =
     (case map_of c k of
        None \<Rightarrow> None
      | Some v \<Rightarrow> Some (v, (k, v) # filter (\<lambda>e. fst e \<noteq> k) c))"

definition lru_store :: "'k \<Rightarrow> 'v \<Rightarrow> ('k \<times> 'v) list \<Rightarrow> ('k \<times> 'v) list" where
  "lru_store k v c = (k, v) # (if maxsize \<le> length c then butlast c else c)"

text \<open>
  The process-wide state behind the two decorated functions: their caches, and two logs
  kept for the verification only, the tickers whose file \<^verbatim>\<open>read_csv\<close> was asked
  to read and the pairs for which the body of \<^verbatim>\<open>get_data\<close> ran (newest first).
\<close>

record memo =
  load_ticker_cache :: "(string \<times> dataframe) list"
  get_data_cache :: "((string \<times> string) \<times> dataframe) list"
  reads :: "string list"
  builds :: "(string \<times> string) list"

subsection \<open>The source's functions\<close>

definition DEFAULT_TICKERS :: "string list" where
  "DEFAULT_TICKERS = [''AAPL'', ''GOOG'', ''INTC'', ''BRCM'', ''YHOO'']"

definition nix :: "string \<Rightarrow> string list \<Rightarrow> string list" where
  "nix val lst = filter (\<lambda>x. x \<noteq> val) lst"

text \<open>\<^verbatim>\<open>str.lower()\<close> on ASCII text.\<close>

definition lower_char :: "char \<Rightarrow> char" where
  "lower_char c =
     (case map_of (zip ''ABCDEFGHIJKLMNOPQRSTUVWXYZ'' ''abcdefghijklmnopqrstuvwxyz'') c of
        None \<Rightarrow> c
      | Some l \<Rightarrow> l)"

definition lower :: "string \<Rightarrow> string" where
  "lower s = map lower_char s"

text \<open>
  The backing source: the directory \<^verbatim>\<open>DATA_DIR\<close>, a file name giving the rows of
  that file, each row its date and its closing value (the column \<^verbatim>\<open>c\<close>, the only
  one the source uses), or nothing when there is no such file. With
  \<^verbatim>\<open>header=None\<close> and the column names given, a file without rows is read as a
  frame without rows.
\<close>

type_synonym csv = "(date \<times> cell) list"
type_synonym files = "string \<Rightarrow> csv option"

definition load_ticker_body :: "files \<Rightarrow> string \<Rightarrow> memo \<Rightarrow> (error + dataframe) \<times> memo" where
  "load_ticker_body fs ticker m =
     (let fname = ''table_'' @ lower ticker @ ''.csv'';
          m' = m\<lparr>reads := ticker # reads m\<rparr>
      in case fs fname of
           None \<Rightarrow> (Inl FileNotFoundError, m')
         | Some data \<Rightarrow>
             (Inr \<lparr>df_index = map fst data,
                   df_columns = [(ticker, map snd data),
                                 (ticker @ ''_returns'', diff (map snd data))]\<rparr>, m'))"

definition load_ticker :: "files \<Rightarrow> string \<Rightarrow> memo \<Rightarrow> (error + dataframe) \<times> memo" where
  "load_ticker fs ticker m =
     (case lru_hit ticker (load_ticker_cache m) of
        Some (df, c) \<Rightarrow> (Inr df, m\<lparr>load_ticker_cache := c\<rparr>)
      | None \<Rightarrow>
          (case load_ticker_body fs ticker m of
             (Inl e, m') \<Rightarrow> (Inl e, m')
           | (Inr df, m') \<Rightarrow>
               (Inr df, m'\<lparr>load_ticker_cache := lru_store ticker df (load_ticker_cache m')\<rparr>)))"

text \<open>The part of \<^verbatim>\<open>get_data\<close> after the two loads: join, drop, and the four
  assignments, one after the other as in the source.\<close>

definition join_frames :: "string \<Rightarrow> string \<Rightarrow> dataframe \<Rightarrow> dataframe \<Rightarrow> error + dataframe" where
  "join_frames t1 t2 df1 df2 =
     bind_err (concat_axis1 df1 df2) (\<lambda>data0.
     let data1 = dropna data0 in
     bind_err (getitem data1 t1) (\<lambda>c1.
     let data2 = setitem data1 ''t1'' c1 in
     bind_err (getitem data2 t2) (\<lambda>c2.
     let data3 = setitem data2 ''t2'' c2 in
     bind_err (getitem data3 (t1 @ ''_returns'')) (\<lambda>c3.
     let data4 = setitem data3 ''t1_returns'' c3 in
     bind_err (getitem data4 (t2 @ ''_returns'')) (\<lambda>c4.
     Inr (setitem data4 ''t2_returns'' c4))))))"

definition get_data_body :: "files \<Rightarrow> string \<Rightarrow> string \<Rightarrow> memo \<Rightarrow> (error + dataframe) \<times> memo" where
  "get_data_body fs t1 t2 m =
     (case load_ticker fs t1 (m\<lparr>builds := (t1, t2) # builds m\<rparr>) of
        (Inl e, m1) \<Rightarrow> (Inl e, m1)
      | (Inr df1, m1) \<Rightarrow>
          (case load_ticker fs t2 m1 of
             (Inl e, m2) \<Rightarrow> (Inl e, m2)
           | (Inr df2, m2) \<Rightarrow> (join_frames t1 t2 df1 df2, m2)))"

definition get_data :: "files \<Rightarrow> string \<Rightarrow> string \<Rightarrow> memo \<Rightarrow> (error + dataframe) \<times> memo" where
  "get_data fs t1 t2 m =
     (case lru_hit (t1, t2) (get_data_cache m) of
        Some (df, c) \<Rightarrow> (Inr df, m\<lparr>get_data_cache := c\<rparr>)
      | None \<Rightarrow>
          (case get_data_body fs t1 t2 m of
             (Inl e, m') \<Rightarrow> (Inl e, m')
           | (Inr df, m') \<Rightarrow>
               (Inr df, m'\<lparr>get_data_cache := lru_store (t1, t2) df (get_data_cache m')\<rparr>)))"

subsection \<open>Widgets and callbacks\<close>

text \<open>
  The state the callbacks read and write: the two choosers, the two column data
  sources, the brushed row positions \<^verbatim>\<open>source.selected.indices\<close>, the statistics
  text, the three chart titles, and the caches.
\<close>

record dashboard =
  ticker1_value :: string
  ticker1_options :: "string list"
  ticker2_value :: string
  ticker2_options :: "string list"
  source_data :: dataframe
  source_static_data :: dataframe
  source_selected :: "int list"
  stats_text :: string
  corr_title :: string
  ts1_title :: string
  ts2_title :: string
  caches :: memo

text \<open>
  A callback returns the exception it raised, if any, and the state it leaves behind:
  an exception keeps every assignment made before it. The rendering of the statistics
  table as text, \<^verbatim>\<open>str\<close>, is a parameter.
\<close>

type_synonym renderer = "(string \<times> col_stats) list \<Rightarrow> string"

definition update_stats ::
  "renderer \<Rightarrow> dataframe \<Rightarrow> string \<Rightarrow> string \<Rightarrow> dashboard \<Rightarrow> error option \<times> dashboard" where
  "update_stats to_str data t1 t2 s =
     (case select_columns data [t1, t2, t1 @ ''_returns'', t2 @ ''_returns''] of
        Inl e \<Rightarrow> (Some e, s)
      | Inr d \<Rightarrow> (None, s\<lparr>stats_text := to_str (describe d)\<rparr>))"

definition update :: "renderer \<Rightarrow> files \<Rightarrow> dashboard \<Rightarrow> error option \<times> dashboard" where
  "update to_str fs s =
     (let t1 = ticker1_value s; t2 = ticker2_value s in
      case get_data fs t1 t2 (caches s) of
        (Inl e, m) \<Rightarrow> (Some e, s\<lparr>caches := m\<rparr>)
      | (Inr df, m) \<Rightarrow>
          (case select_columns df [''t1'', ''t2'', ''t1_returns'', ''t2_returns''] of
             Inl e \<Rightarrow> (Some e, s\<lparr>caches := m\<rparr>)
           | Inr data \<Rightarrow>
               (case update_stats to_str df t1 t2
                       (s\<lparr>caches := m, source_data := data, source_static_data := data\<rparr>) of
                  (Some e, s') \<Rightarrow> (Some e, s')
                | (None, s') \<Rightarrow>
                    (None, s'\<lparr>corr_title := t1 @ '' returns vs. '' @ t2 @ '' returns'',
                               ts1_title := t1, ts2_title := t2\<rparr>))))"

definition ticker1_change ::
  "renderer \<Rightarrow> files \<Rightarrow> string \<Rightarrow> string \<Rightarrow> string \<Rightarrow> dashboard \<Rightarrow> error option \<times> dashboard" where
  "ticker1_change to_str fs attrname old new s =
     update to_str fs (s\<lparr>ticker2_options := nix new DEFAULT_TICKERS\<rparr>)"

definition ticker2_change ::
  "renderer \<Rightarrow> files \<Rightarrow> string \<Rightarrow> string \<Rightarrow> string \<Rightarrow> dashboard \<Rightarrow> error option \<times> dashboard" where
  "ticker2_change to_str fs attrname old new s =
     update to_str fs (s\<lparr>ticker1_options := nix new DEFAULT_TICKERS\<rparr>)"

definition selection_change ::
  "renderer \<Rightarrow> files \<Rightarrow> string \<Rightarrow> int list \<Rightarrow> int list \<Rightarrow> dashboard \<Rightarrow> error option \<times> dashboard" where
  "selection_change to_str fs attrname old new s =
     (let t1 = ticker1_value s; t2 = ticker2_value s in
      case get_data fs t1 t2 (caches s) of
        (Inl e, m) \<Rightarrow> (Some e, s\<lparr>caches := m\<rparr>)
      | (Inr data, m) \<Rightarrow>
          (let selected = source_selected s in
           if selected \<noteq> [] then
             (case iloc data selected of
                Inl e \<Rightarrow> (Some e, s\<lparr>caches := m\<rparr>)
              | Inr data' \<Rightarrow> update_stats to_str data' t1 t2 (s\<lparr>caches := m\<rparr>))
           else update_stats to_str data t1 t2 (s\<lparr>caches := m\<rparr>)))"

text \<open>
  The events the choosers and the data source deliver. The framework stores the new
  value in the widget and then calls the callback registered with \<^verbatim>\<open>on_change\<close>,
  passing the attribute name, the old and the new value.
\<close>

datatype event = Ticker1Changed string | Ticker2Changed string | SelectionChanged "int list"

fun handle :: "renderer \<Rightarrow> files \<Rightarrow> event \<Rightarrow> dashboard \<Rightarrow> error option \<times> dashboard" where
  "handle to_str fs (Ticker1Changed new) s =
     ticker1_change to_str fs ''value'' (ticker1_value s) new (s\<lparr>ticker1_value := new\<rparr>)"
| "handle to_str fs (Ticker2Changed new) s =
     ticker2_change to_str fs ''value'' (ticker2_value s) new (s\<lparr>ticker2_value := new\<rparr>)"
| "handle to_str fs (SelectionChanged new) s =
     selection_change to_str fs ''indices'' (source_selected s) new (s\<lparr>source_selected := new\<rparr>)"

text \<open>The widgets as the module creates them, with empty caches.\<close>

definition empty_source :: dataframe where
  "empty_source =
     \<lparr>df_index = [],
      df_columns = [(''t1'', []), (''t2'', []), (''t1_returns'', []), (''t2_returns'', [])]\<rparr>"

definition initial :: dashboard where
  "initial =
     \<lparr>ticker1_value = ''AAPL'', ticker1_options = nix ''GOOG'' DEFAULT_TICKERS,
      ticker2_value = ''GOOG'', ticker2_options = nix ''AAPL'' DEFAULT_TICKERS,
      source_data = empty_source, source_static_data = empty_source,
      source_selected = [], stats_text = [],
      corr_title = [], ts1_title = [], ts2_title = [],
      caches = \<lparr>load_ticker_cache = [], get_data_cache = [], reads = [], builds = []\<rparr>\<rparr>"

subsection \<open>Derived notions\<close>

definition empty_memo :: memo where
  "empty_memo = \<lparr>load_ticker_cache = [], get_data_cache = [], reads = [], builds = []\<rparr>"

text \<open>What the two loaders compute on empty caches.\<close>

definition read_frame :: "files \<Rightarrow> string \<Rightarrow> error + dataframe" where
  "read_frame fs ticker = fst (load_ticker fs ticker empty_memo)"

definition build :: "files \<Rightarrow> string \<Rightarrow> string \<Rightarrow> error + dataframe" where
  "build fs t1 t2 = fst (get_data fs t1 t2 empty_memo)"

text \<open>Caches are consistent with the files when every entry is what the loader would
  compute afresh.\<close>

definition cache_ok :: "files \<Rightarrow> memo \<Rightarrow> bool" where
  "cache_ok fs m \<longleftrightarrow>
     list_all (\<lambda>e. read_frame fs (fst e) = Inr (snd e)) (load_ticker_cache m) \<and>
     list_all (\<lambda>e. build fs (fst (fst e)) (snd (fst e)) = Inr (snd e)) (get_data_cache m)"

text \<open>
  The column names \<^verbatim>\<open>get_data\<close> works with are the two tickers, the two tickers
  with \<^verbatim>\<open>_returns\<close> appended, and the four fixed role names. The tickers of a pair
  are well named when these eight names are different from each other.
\<close>

definition names_ok :: "string \<Rightarrow> string \<Rightarrow> bool" where
  "names_ok t1 t2 \<longleftrightarrow>
     distinct [t1, t1 @ ''_returns'', t2, t2 @ ''_returns'',
               ''t1'', ''t2'', ''t1_returns'', ''t2_returns'']"

text \<open>A ticker has data when its file can be read.\<close>

definition has_data :: "files \<Rightarrow> string \<Rightarrow> bool" where
  "has_data fs t = (case read_frame fs t of Inl e \<Rightarrow> False | Inr df \<Rightarrow> True)"

text \<open>
  The two steps of \<^verbatim>\<open>selection_change\<close> once it has the dataset: the rows the
  selection stands for (all of them when it is empty), and the statistics text over a
  frame.
\<close>

definition selection_view :: "dataframe \<Rightarrow> int list \<Rightarrow> error + dataframe" where
  "selection_view df selected = (if selected \<noteq> [] then iloc df selected else Inr df)"

definition summary :: "renderer \<Rightarrow> dataframe \<Rightarrow> string \<Rightarrow> string \<Rightarrow> error + string" where
  "summary to_str data t1 t2 =
     bind_err (select_columns data [t1, t2, t1 @ ''_returns'', t2 @ ''_returns''])
       (\<lambda>d. Inr (to_str (describe d)))"

text \<open>Running a list of loads, and a list of events, one after the other.\<close>

definition loads :: "files \<Rightarrow> string list \<Rightarrow> memo \<Rightarrow> memo" where
  "loads fs ts m = fold (\<lambda>t m'. snd (load_ticker fs t m')) ts m"

definition run :: "renderer \<Rightarrow> files \<Rightarrow> event list \<Rightarrow> dashboard \<Rightarrow> dashboard" where
  "run to_str fs evs s = fold (\<lambda>ev s'. snd (handle to_str fs ev s')) evs s"

text \<open>
  The two choosers are consistent when the tickers differ and each chooser offers every
  default ticker but the other chooser's value. An event is allowed when a new ticker
  is one of the options its chooser offers.
\<close>

definition choosers_ok :: "dashboard \<Rightarrow> bool" where
  "choosers_ok s \<longleftrightarrow>
     ticker1_value s \<noteq> ticker2_value s \<and>
     ticker1_options s = nix (ticker2_value s) DEFAULT_TICKERS \<and>
     ticker2_options s = nix (ticker1_value s) DEFAULT_TICKERS"

fun allowed :: "event \<Rightarrow> dashboard \<Rightarrow> bool" where
  "allowed (Ticker1Changed new) s \<longleftrightarrow> new \<in> set (ticker1_options s)"
| "allowed (Ticker2Changed new) s \<longleftrightarrow> new \<in> set (ticker2_options s)"
| "allowed (SelectionChanged new) s \<longleftrightarrow> True"

fun identifier_change :: "event \<Rightarrow> bool" where
  "identifier_change (Ticker1Changed new) \<longleftrightarrow> True"
| "identifier_change (Ticker2Changed new) \<longleftrightarrow> True"
| "identifier_change (SelectionChanged new) \<longleftrightarrow> False"

text \<open>The pair of tickers the choosers show once the event is delivered.\<close>

fun chosen :: "event \<Rightarrow> dashboard \<Rightarrow> string \<times> string" where
  "chosen (Ticker1Changed new) s = (new, ticker2_value s)"
| "chosen (Ticker2Changed new) s = (ticker1_value s, new)"
| "chosen (SelectionChanged new) s = (ticker1_value s, ticker2_value s)"

text \<open>What holds from a successful publication on, as long as only selections change.\<close>

definition published_in_cache ::
  "dataframe \<Rightarrow> dashboard \<Rightarrow> dashboard \<Rightarrow> bool" where
  "published_in_cache df s1 s \<longleftrightarrow>
     map_of (get_data_cache (caches s)) (ticker1_value s, ticker2_value s) = Some df \<and>
     select_columns df [''t1'', ''t2'', ''t1_returns'', ''t2_returns''] = Inr (source_data s) \<and>
     source_data s = source_data s1 \<and>
     ticker1_value s = ticker1_value s1 \<and> ticker2_value s = ticker2_value s1 \<and>
     builds (caches s) = builds (caches s1) \<and> reads (caches s) = reads (caches s1)"

subsection \<open>Sample data\<close>

text \<open>
  Three days of two series \<open>A\<close> and \<open>B\<close>, a series \<open>C\<close> on other days, the
  same data under three of the dashboard's tickers, and a fourth ticker that shares two
  days with the first.
\<close>

definition sample_files :: files where
  "sample_files f =
     (if f = ''table_a.csv'' \<or> f = ''table_aapl.csv''
        then Some [(1, Some 10), (2, Some 12), (3, Some 11)]
      else if f = ''table_b.csv'' \<or> f = ''table_goog.csv''
        then Some [(1, Some 20), (2, Some 19), (3, Some 22)]
      else if f = ''table_c.csv'' \<or> f = ''table_intc.csv''
        then Some [(7, Some 5), (8, Some 6)]
      else if f = ''table_brcm.csv''
        then Some [(2, Some 40), (3, Some 44), (4, Some 41)]
      else None)"

text \<open>A rendering of the statistics table that shows the count of each column.\<close>

definition tally :: renderer where
  "tally t = concat (map (\<lambda>c. fst c @ '':'' @ replicate (st_count (snd c)) CHR ''*'' @ '' '') t)"

text \<open>The dashboard once \<^verbatim>\<open>app\<close> has run its first \<^verbatim>\<open>update\<close> on the sample
  data.\<close>

definition sample_dashboard :: dashboard where
  "sample_dashboard = snd (update tally sample_files initial)"

text \<open>The datasets of two pairs of sample tickers.\<close>

definition aapl_goog :: dataframe where
  "aapl_goog =
     \<lparr>df_index = [2, 3],
      df_columns =
        [(''AAPL'', [Some 12, Some 11]), (''AAPL_returns'', [Some 2, Some (- 1)]),
         (''GOOG'', [Some 19, Some 22]), (''GOOG_returns'', [Some (- 1), Some 3]),
         (''t1'', [Some 12, Some 11]), (''t2'', [Some 19, Some 22]),
         (''t1_returns'', [Some 2, Some (- 1)]), (''t2_returns'', [Some (- 1), Some 3])]\<rparr>"

definition aapl_brcm :: dataframe where
  "aapl_brcm =
     \<lparr>df_index = [3],
      df_columns =
        [(''AAPL'', [Some 11]), (''AAPL_returns'', [Some (- 1)]),
         (''BRCM'', [Some 44]), (''BRCM_returns'', [Some 4]),
         (''t1'', [Some 11]), (''t2'', [Some 44]),
         (''t1_returns'', [Some (- 1)]), (''t2_returns'', [Some 4])]\<rparr>"

section \<open>Properties\<close>

subsection \<open>The caches are transparent\<close>

lemma lru_hit_None_iff: "lru_hit k c = None \<longleftrightarrow> map_of c k = None"
  by (simp add: lru_hit_def split: option.splits)

lemma lru_hit_SomeD:
  assumes "lru_hit k c = Some (v, c')"
  shows "(k, v) \<in> set c" and "set c' \<subseteq> set c" and "map_of c k = Some v"
    and "c' = (k, v) # filter (\<lambda>e. fst e \<noteq> k) c"
  using assms by (auto simp: lru_hit_def split: option.splits dest: map_of_SomeD)

lemma set_lru_store: "set (lru_store k v c) \<subseteq> insert (k, v) (set c)"
  by (auto simp: lru_store_def dest: in_set_butlastD)

lemma lru_hit_empty [simp]: "lru_hit k [] = None"
  by (simp add: lru_hit_def)

lemma load_body_fst: "fst (load_ticker_body fs t m) = fst (load_ticker_body fs t m')"
  by (simp add: load_ticker_body_def Let_def split: option.splits)

lemma load_body_caches [simp]:
  "load_ticker_cache (snd (load_ticker_body fs t m)) = load_ticker_cache m"
  "get_data_cache (snd (load_ticker_body fs t m)) = get_data_cache m"
  by (simp_all add: load_ticker_body_def Let_def split: option.splits)

lemma read_frame_body: "read_frame fs t = fst (load_ticker_body fs t m)"
proof -
  have "read_frame fs t = fst (load_ticker_body fs t empty_memo)"
    by (simp add: read_frame_def load_ticker_def empty_memo_def split: prod.splits sum.splits)
  then show ?thesis using load_body_fst by metis
qed

lemma cache_okI:
  assumes "\<And>t df. (t, df) \<in> set (load_ticker_cache m) \<Longrightarrow> read_frame fs t = Inr df"
    and "\<And>t1 t2 df. ((t1, t2), df) \<in> set (get_data_cache m) \<Longrightarrow> build fs t1 t2 = Inr df"
  shows "cache_ok fs m"
  using assms by (auto simp: cache_ok_def list_all_iff)

lemma cache_okD:
  assumes "cache_ok fs m"
  shows "(t, df) \<in> set (load_ticker_cache m) \<Longrightarrow> read_frame fs t = Inr df"
    and "((t1, t2), df) \<in> set (get_data_cache m) \<Longrightarrow> build fs t1 t2 = Inr df"
  using assms by (auto simp: cache_ok_def list_all_iff)

lemma load_ticker_get_data_cache [simp]:
  "get_data_cache (snd (load_ticker fs t m)) = get_data_cache m"
proof (cases "lru_hit t (load_ticker_cache m)")
  case None
  then show ?thesis
    by (cases "load_ticker_body fs t m" rule: prod.exhaust)
       (auto simp: load_ticker_def split: sum.splits dest: arg_cong[where f="\<lambda>p. get_data_cache (snd p)"])
next
  case (Some a)
  then show ?thesis by (cases a) (simp add: load_ticker_def)
qed

lemma load_ticker_ok:
  assumes ok: "cache_ok fs m"
  shows "fst (load_ticker fs t m) = read_frame fs t \<and> cache_ok fs (snd (load_ticker fs t m))"
proof (cases "lru_hit t (load_ticker_cache m)")
  case None
  obtain r m' where body: "load_ticker_body fs t m = (r, m')" by (cases "load_ticker_body fs t m")
  have r: "r = read_frame fs t" using read_frame_body[of fs t m] body by simp
  have c1: "load_ticker_cache m' = load_ticker_cache m" and c2: "get_data_cache m' = get_data_cache m"
    using load_body_caches[of fs t m] body by simp_all
  show ?thesis
  proof (cases r)
    case (Inl e)
    then have "load_ticker fs t m = (Inl e, m')" using None body by (simp add: load_ticker_def)
    moreover have "cache_ok fs m'" using ok c1 c2 by (simp add: cache_ok_def)
    ultimately show ?thesis using r Inl by simp
  next
    case (Inr df)
    then have eq: "load_ticker fs t m =
        (Inr df, m'\<lparr>load_ticker_cache := lru_store t df (load_ticker_cache m')\<rparr>)"
      using None body by (simp add: load_ticker_def)
    have "cache_ok fs (m'\<lparr>load_ticker_cache := lru_store t df (load_ticker_cache m')\<rparr>)"
    proof (rule cache_okI)
      fix t' df' assume "(t', df') \<in> set (load_ticker_cache (m'\<lparr>load_ticker_cache := lru_store t df (load_ticker_cache m')\<rparr>))"
      then have "(t', df') = (t, df) \<or> (t', df') \<in> set (load_ticker_cache m)"
        using set_lru_store[of t df "load_ticker_cache m'"] c1 by auto
      then show "read_frame fs t' = Inr df'" using r Inr cache_okD(1)[OF ok] by auto
    next
      fix t1 t2 df' assume "((t1, t2), df') \<in> set (get_data_cache (m'\<lparr>load_ticker_cache := lru_store t df (load_ticker_cache m')\<rparr>))"
      then show "build fs t1 t2 = Inr df'" using cache_okD(2)[OF ok] c2 by simp
    qed
    then show ?thesis using eq r Inr by simp
  qed
next
  case (Some a)
  obtain df c where a: "a = (df, c)" by (cases a)
  have eq: "load_ticker fs t m = (Inr df, m\<lparr>load_ticker_cache := c\<rparr>)"
    using Some a by (simp add: load_ticker_def)
  have r: "read_frame fs t = Inr df"
    using lru_hit_SomeD(1)[OF Some[unfolded a]] cache_okD(1)[OF ok] by blast
  have "cache_ok fs (m\<lparr>load_ticker_cache := c\<rparr>)"
  proof (rule cache_okI)
    fix t' df' assume "(t', df') \<in> set (load_ticker_cache (m\<lparr>load_ticker_cache := c\<rparr>))"
    then show "read_frame fs t' = Inr df'"
      using lru_hit_SomeD(2)[OF Some[unfolded a]] cache_okD(1)[OF ok] by auto
  next
    fix t1 t2 df' assume "((t1, t2), df') \<in> set (get_data_cache (m\<lparr>load_ticker_cache := c\<rparr>))"
    then show "build fs t1 t2 = Inr df'" using cache_okD(2)[OF ok] by simp
  qed
  then show ?thesis using eq r by simp
qed


lemma bind_err_simps [simp]:
  "bind_err (Inl e) f = Inl e" "bind_err (Inr x) f = f x"
  by (simp_all add: bind_err_def)

lemma get_data_body_ok:
  assumes ok: "cache_ok fs m"
  shows "fst (get_data_body fs t1 t2 m) =
           bind_err (read_frame fs t1) (\<lambda>df1. bind_err (read_frame fs t2) (join_frames t1 t2 df1))
         \<and> cache_ok fs (snd (get_data_body fs t1 t2 m))
         \<and> get_data_cache (snd (get_data_body fs t1 t2 m)) = get_data_cache m"
proof -
  let ?m0 = "m\<lparr>builds := (t1, t2) # builds m\<rparr>"
  have ok0: "cache_ok fs ?m0" using ok by (simp add: cache_ok_def)
  obtain r1 m1 where l1: "load_ticker fs t1 ?m0 = (r1, m1)" by (cases "load_ticker fs t1 ?m0")
  have r1: "r1 = read_frame fs t1" and ok1: "cache_ok fs m1"
    using load_ticker_ok[OF ok0, of t1] l1 by simp_all
  have g1: "get_data_cache m1 = get_data_cache m"
    using load_ticker_get_data_cache[of fs t1 ?m0] l1 by simp
  obtain r2 m2 where l2: "load_ticker fs t2 m1 = (r2, m2)" by (cases "load_ticker fs t2 m1")
  have r2: "r2 = read_frame fs t2" and ok2: "cache_ok fs m2"
    using load_ticker_ok[OF ok1, of t2] l2 by simp_all
  have g2: "get_data_cache m2 = get_data_cache m"
    using load_ticker_get_data_cache[of fs t2 m1] l2 g1 by simp
  show ?thesis
  proof (cases r1)
    case (Inl e)
    then have "get_data_body fs t1 t2 m = (Inl e, m1)" using l1 by (simp add: get_data_body_def)
    then show ?thesis using Inl r1 ok1 g1 by simp
  next
    case I1: (Inr df1)
    show ?thesis
    proof (cases r2)
      case (Inl e)
      then have "get_data_body fs t1 t2 m = (Inl e, m2)" using l1 l2 I1 by (simp add: get_data_body_def)
      then show ?thesis using Inl I1 r1 r2 ok2 g2 by simp
    next
      case (Inr df2)
      then have "get_data_body fs t1 t2 m = (join_frames t1 t2 df1 df2, m2)"
        using l1 l2 I1 by (simp add: get_data_body_def)
      then show ?thesis using Inr I1 r1 r2 ok2 g2 by simp
    qed
  qed
qed

lemma cache_ok_empty [simp]: "cache_ok fs empty_memo"
  by (simp add: cache_ok_def empty_memo_def)

lemma build_unfold:
  "build fs t1 t2 =
     bind_err (read_frame fs t1) (\<lambda>df1. bind_err (read_frame fs t2) (join_frames t1 t2 df1))"
proof -
  obtain r m' where b: "get_data_body fs t1 t2 empty_memo = (r, m')"
    by (cases "get_data_body fs t1 t2 empty_memo")
  have "build fs t1 t2 = r"
    using b by (cases r) (simp_all add: build_def get_data_def empty_memo_def)
  then show ?thesis using get_data_body_ok[OF cache_ok_empty, of fs t1 t2] b by simp
qed

lemma get_data_ok:
  assumes ok: "cache_ok fs m"
  shows "fst (get_data fs t1 t2 m) = build fs t1 t2 \<and> cache_ok fs (snd (get_data fs t1 t2 m))"
proof (cases "lru_hit (t1, t2) (get_data_cache m)")
  case None
  obtain r m' where b: "get_data_body fs t1 t2 m = (r, m')" by (cases "get_data_body fs t1 t2 m")
  have r: "r = build fs t1 t2" and ok': "cache_ok fs m'" and g: "get_data_cache m' = get_data_cache m"
    using get_data_body_ok[OF ok, of t1 t2] b build_unfold[of fs t1 t2] by simp_all
  show ?thesis
  proof (cases r)
    case (Inl e)
    then have "get_data fs t1 t2 m = (Inl e, m')" using None b by (simp add: get_data_def)
    then show ?thesis using Inl r ok' by simp
  next
    case (Inr df)
    then have eq: "get_data fs t1 t2 m =
        (Inr df, m'\<lparr>get_data_cache := lru_store (t1, t2) df (get_data_cache m')\<rparr>)"
      using None b by (simp add: get_data_def)
    have "cache_ok fs (m'\<lparr>get_data_cache := lru_store (t1, t2) df (get_data_cache m')\<rparr>)"
    proof (rule cache_okI)
      fix t df' assume "(t, df') \<in> set (load_ticker_cache (m'\<lparr>get_data_cache := lru_store (t1, t2) df (get_data_cache m')\<rparr>))"
      then show "read_frame fs t = Inr df'" using cache_okD(1)[OF ok'] by simp
    next
      fix u1 u2 df' assume "((u1, u2), df') \<in> set (get_data_cache (m'\<lparr>get_data_cache := lru_store (t1, t2) df (get_data_cache m')\<rparr>))"
      then have "((u1, u2), df') = ((t1, t2), df) \<or> ((u1, u2), df') \<in> set (get_data_cache m')"
        using set_lru_store[of "(t1, t2)" df "get_data_cache m'"] by auto
      then show "build fs u1 u2 = Inr df'" using r Inr cache_okD(2)[OF ok'] by auto
    qed
    then show ?thesis using eq r Inr by simp
  qed
next
  case (Some a)
  obtain df c where a: "a = (df, c)" by (cases a)
  have eq: "get_data fs t1 t2 m = (Inr df, m\<lparr>get_data_cache := c\<rparr>)"
    using Some a by (simp add: get_data_def)
  have r: "build fs t1 t2 = Inr df"
    using lru_hit_SomeD(1)[OF Some[unfolded a]] cache_okD(2)[OF ok] by blast
  have "cache_ok fs (m\<lparr>get_data_cache := c\<rparr>)"
  proof (rule cache_okI)
    fix t df' assume "(t, df') \<in> set (load_ticker_cache (m\<lparr>get_data_cache := c\<rparr>))"
    then show "read_frame fs t = Inr df'" using cache_okD(1)[OF ok] by simp
  next
    fix u1 u2 df' assume "((u1, u2), df') \<in> set (get_data_cache (m\<lparr>get_data_cache := c\<rparr>))"
    then show "build fs u1 u2 = Inr df'"
      using lru_hit_SomeD(2)[OF Some[unfolded a]] cache_okD(2)[OF ok] by auto
  qed
  then show ?thesis using eq r by simp
qed

lemmas frame_defs = concat_axis1_def reindex_def take_rows_def dropna_def row_defined_def
  getitem_def setitem_def select_columns_def bind_err_def minus_cell_def

lemmas cache_defs = lru_hit_def lru_store_def maxsize_def empty_memo_def

lemmas prog_defs = load_ticker_def load_ticker_body_def get_data_def get_data_body_def
  join_frames_def lower_def lower_char_def

lemma count_two: "st_count (describe_column [Some x, Some y]) = 2"
  by (simp add: describe_column_def defined_values_def Let_def)

subsection \<open>Selection changes\<close>

text \<open>
  C7. A selection change recomputes and republishes the statistics only: whatever the
  new selection and whether or not the callback raises, the published dataset, the two
  tickers with their options and the three chart titles stay as they were; besides the
  stored selection itself, only the statistics text and the caches can differ.
\<close>

theorem selection_change_frame:
  "snd (handle to_str fs (SelectionChanged sel) s) =
     s\<lparr>source_selected := sel,
       stats_text := stats_text (snd (handle to_str fs (SelectionChanged sel) s)),
       caches := caches (snd (handle to_str fs (SelectionChanged sel) s))\<rparr>"
proof -
  let ?s0 = "s\<lparr>source_selected := sel\<rparr>"
  obtain r m where g: "get_data fs (ticker1_value ?s0) (ticker2_value ?s0) (caches ?s0) = (r, m)"
    by (cases "get_data fs (ticker1_value ?s0) (ticker2_value ?s0) (caches ?s0)")
  show ?thesis
  proof (cases r)
    case (Inl e)
    then show ?thesis using g by (simp add: selection_change_def)
  next
    case (Inr df)
    show ?thesis
    proof (cases "sel = []")
      case True
      then show ?thesis using g Inr
        by (cases "select_columns df [ticker1_value s, ticker2_value s,
              ticker1_value s @ ''_returns'', ticker2_value s @ ''_returns'']")
           (simp_all add: selection_change_def update_stats_def)
    next
      case False
      show ?thesis
      proof (cases "iloc df sel")
        case (Inl e)
        then show ?thesis using g Inr False by (simp add: selection_change_def)
      next
        case I2: (Inr d')
        then show ?thesis using g Inr False
          by (cases "select_columns d' [ticker1_value s, ticker2_value s,
                ticker1_value s @ ''_returns'', ticker2_value s @ ''_returns'']")
             (simp_all add: selection_change_def update_stats_def)
      qed
    qed
  qed
qed

subsection \<open>The worked example\<close>

text \<open>
  C9. For the series \<open>A = {(1,10), (2,12), (3,11)}\<close> and
  \<open>B = {(1,20), (2,19), (3,22)}\<close>, the builder drops day 1, whose returns are
  undefined, and gives two rows: day 2 with \<open>A = 12\<close>, \<open>B = 19\<close>, returns \<open>2\<close> and
  \<open>-1\<close>, and day 3 with \<open>A = 11\<close>, \<open>B = 22\<close>, returns \<open>-1\<close> and \<open>3\<close>. The count of
  every column in the statistics over the full dataset is 2.
\<close>

theorem worked_example_A_B:
  "fst (get_data sample_files ''A'' ''B'' empty_memo) =
     Inr \<lparr>df_index = [2, 3],
          df_columns =
            [(''A'', [Some 12, Some 11]), (''A_returns'', [Some 2, Some (- 1)]),
             (''B'', [Some 19, Some 22]), (''B_returns'', [Some (- 1), Some 3]),
             (''t1'', [Some 12, Some 11]), (''t2'', [Some 19, Some 22]),
             (''t1_returns'', [Some 2, Some (- 1)]), (''t2_returns'', [Some (- 1), Some 3])]\<rparr>
   \<and> bind_err (fst (get_data sample_files ''A'' ''B'' empty_memo)) (\<lambda>df.
       bind_err (select_columns df [''A'', ''B'', ''A_returns'', ''B_returns'']) (\<lambda>d.
       Inr (map (\<lambda>c. (fst c, st_count (snd c))) (describe d)))) =
     Inr [(''A'', 2), (''B'', 2), (''A_returns'', 2), (''B_returns'', 2)]"
proof -
  have g: "fst (get_data sample_files ''A'' ''B'' empty_memo) =
     Inr \<lparr>df_index = [2, 3],
          df_columns =
            [(''A'', [Some 12, Some 11]), (''A_returns'', [Some 2, Some (- 1)]),
             (''B'', [Some 19, Some 22]), (''B_returns'', [Some (- 1), Some 3]),
             (''t1'', [Some 12, Some 11]), (''t2'', [Some 19, Some 22]),
             (''t1_returns'', [Some 2, Some (- 1)]), (''t2_returns'', [Some (- 1), Some 3])]\<rparr>"
    by (simp add: frame_defs cache_defs prog_defs sample_files_def Let_def)
  show ?thesis
    unfolding g by (simp add: select_columns_def describe_def count_two)
qed

lemma update_stats_cases:
  obtains (stats_err) e where
      "select_columns data [t1, t2, t1 @ ''_returns'', t2 @ ''_returns''] = Inl e"
      "update_stats to_str data t1 t2 s = (Some e, s)"
  | (stats_ok) d where
      "select_columns data [t1, t2, t1 @ ''_returns'', t2 @ ''_returns''] = Inr d"
      "update_stats to_str data t1 t2 s = (None, s\<lparr>stats_text := to_str (describe d)\<rparr>)"
  by (cases "select_columns data [t1, t2, t1 @ ''_returns'', t2 @ ''_returns'']")
     (simp_all add: update_stats_def)

lemma update_cases:
  fixes s :: dashboard
  defines "t1 \<equiv> ticker1_value s" and "t2 \<equiv> ticker2_value s"
  obtains (load_err) e m where
      "get_data fs t1 t2 (caches s) = (Inl e, m)"
      "update to_str fs s = (Some e, s\<lparr>caches := m\<rparr>)"
  | (roles_err) df m e where
      "get_data fs t1 t2 (caches s) = (Inr df, m)"
      "select_columns df [''t1'', ''t2'', ''t1_returns'', ''t2_returns''] = Inl e"
      "update to_str fs s = (Some e, s\<lparr>caches := m\<rparr>)"
  | (stats_err) df m data e where
      "get_data fs t1 t2 (caches s) = (Inr df, m)"
      "select_columns df [''t1'', ''t2'', ''t1_returns'', ''t2_returns''] = Inr data"
      "select_columns df [t1, t2, t1 @ ''_returns'', t2 @ ''_returns''] = Inl e"
      "update to_str fs s =
         (Some e, s\<lparr>caches := m, source_data := data, source_static_data := data\<rparr>)"
  | (ok) df m data d where
      "get_data fs t1 t2 (caches s) = (Inr df, m)"
      "select_columns df [''t1'', ''t2'', ''t1_returns'', ''t2_returns''] = Inr data"
      "select_columns df [t1, t2, t1 @ ''_returns'', t2 @ ''_returns''] = Inr d"
      "update to_str fs s =
         (None, s\<lparr>caches := m, source_data := data, source_static_data := data,
                  stats_text := to_str (describe d),
                  corr_title := t1 @ '' returns vs. '' @ t2 @ '' returns'',
                  ts1_title := t1, ts2_title := t2\<rparr>)"
proof -
  obtain r m where g: "get_data fs t1 t2 (caches s) = (r, m)"
    by (cases "get_data fs t1 t2 (caches s)")
  show thesis
  proof (cases r)
    case (Inl e)
    then show thesis using g load_err by (simp add: update_def t1_def t2_def Let_def)
  next
    case (Inr df)
    show thesis
    proof (cases "select_columns df [''t1'', ''t2'', ''t1_returns'', ''t2_returns'']")
      case (Inl e)
      then show thesis using g Inr roles_err by (simp add: update_def t1_def t2_def Let_def)
    next
      case R: (Inr data)
      show thesis
      proof (cases "select_columns df [t1, t2, t1 @ ''_returns'', t2 @ ''_returns'']")
        case (Inl e)
        then show thesis using g Inr R stats_err[of df m data e]
          by (simp add: update_def update_stats_def t1_def t2_def Let_def)
      next
        case S: (Inr d)
        then show thesis using g Inr R ok[of df m data d]
          by (simp add: update_def update_stats_def t1_def t2_def Let_def)
      qed
    qed
  qed
qed

lemma update_keeps:
  "ticker1_value (snd (update to_str fs s)) = ticker1_value s"
  "ticker2_value (snd (update to_str fs s)) = ticker2_value s"
  "ticker1_options (snd (update to_str fs s)) = ticker1_options s"
  "ticker2_options (snd (update to_str fs s)) = ticker2_options s"
  "source_selected (snd (update to_str fs s)) = source_selected s"
  by (cases rule: update_cases[of fs s to_str]; simp)+

subsection \<open>What the callbacks do, case by case\<close>

lemma selection_change_cases:
  fixes s :: dashboard
  defines "t1 \<equiv> ticker1_value s" and "t2 \<equiv> ticker2_value s"
  obtains (load_err) e m where
      "get_data fs t1 t2 (caches s) = (Inl e, m)"
      "selection_change to_str fs a old new s = (Some e, s\<lparr>caches := m\<rparr>)"
  | (whole) df m where
      "source_selected s = []"
      "get_data fs t1 t2 (caches s) = (Inr df, m)"
      "selection_change to_str fs a old new s = update_stats to_str df t1 t2 (s\<lparr>caches := m\<rparr>)"
  | (out_of_range) df m e where
      "source_selected s \<noteq> []"
      "get_data fs t1 t2 (caches s) = (Inr df, m)"
      "iloc df (source_selected s) = Inl e"
      "selection_change to_str fs a old new s = (Some e, s\<lparr>caches := m\<rparr>)"
  | (rows) df m view where
      "source_selected s \<noteq> []"
      "get_data fs t1 t2 (caches s) = (Inr df, m)"
      "iloc df (source_selected s) = Inr view"
      "selection_change to_str fs a old new s = update_stats to_str view t1 t2 (s\<lparr>caches := m\<rparr>)"
proof -
  obtain r m where g: "get_data fs t1 t2 (caches s) = (r, m)"
    by (cases "get_data fs t1 t2 (caches s)")
  show thesis
  proof (cases r)
    case (Inl e)
    then show thesis using g load_err by (simp add: selection_change_def t1_def t2_def Let_def)
  next
    case (Inr df)
    show thesis
    proof (cases "source_selected s = []")
      case True
      then show thesis using g Inr whole[of df m]
        by (simp add: selection_change_def t1_def t2_def Let_def)
    next
      case False
      show thesis
      proof (cases "iloc df (source_selected s)")
        case (Inl e)
        then show thesis using g Inr False out_of_range[of df m e]
          by (simp add: selection_change_def t1_def t2_def Let_def)
      next
        case V: (Inr view)
        then show thesis using g Inr False rows[of df m view]
          by (simp add: selection_change_def t1_def t2_def Let_def)
      qed
    qed
  qed
qed

lemma update_stats_keeps:
  "ticker1_value (snd (update_stats to_str d t1 t2 s)) = ticker1_value s"
  "ticker2_value (snd (update_stats to_str d t1 t2 s)) = ticker2_value s"
  "ticker1_options (snd (update_stats to_str d t1 t2 s)) = ticker1_options s"
  "ticker2_options (snd (update_stats to_str d t1 t2 s)) = ticker2_options s"
  "source_selected (snd (update_stats to_str d t1 t2 s)) = source_selected s"
  "source_data (snd (update_stats to_str d t1 t2 s)) = source_data s"
  "source_static_data (snd (update_stats to_str d t1 t2 s)) = source_static_data s"
  "caches (snd (update_stats to_str d t1 t2 s)) = caches s"
  by (cases rule: update_stats_cases[of d t1 t2 to_str s]; simp)+

lemma selection_change_keeps:
  "ticker1_value (snd (selection_change to_str fs a old new s)) = ticker1_value s"
  "ticker2_value (snd (selection_change to_str fs a old new s)) = ticker2_value s"
  "ticker1_options (snd (selection_change to_str fs a old new s)) = ticker1_options s"
  "ticker2_options (snd (selection_change to_str fs a old new s)) = ticker2_options s"
  "source_selected (snd (selection_change to_str fs a old new s)) = source_selected s"
  "source_data (snd (selection_change to_str fs a old new s)) = source_data s"
  by (cases rule: selection_change_cases[of fs s to_str a old new]; simp add: update_stats_keeps)+

lemma handle_keeps_selection:
  "identifier_change ev \<Longrightarrow> source_selected (snd (handle to_str fs ev s)) = source_selected s"
  by (cases ev) (simp_all add: ticker1_change_def ticker2_change_def update_keeps)

lemma handle_pair: "(ticker1_value (snd (handle to_str fs ev s)), ticker2_value (snd (handle to_str fs ev s))) = chosen ev s"
  by (cases ev) (simp_all add: ticker1_change_def ticker2_change_def update_keeps selection_change_keeps)

lemma nix_set: "set (nix x xs) = set xs - {x}"
  by (auto simp: nix_def)

lemma choosers_ok_initial: "choosers_ok initial"
  by (simp add: choosers_ok_def initial_def nix_def DEFAULT_TICKERS_def)

subsection \<open>The choosers exclude each other\<close>

text \<open>
  C8. After a ticker change to \<open>x\<close>, the options published for the other chooser
  are the default tickers with \<open>x\<close> removed, whether or not the rebuild that follows
  raises. Every allowed event keeps the choosers consistent: the two tickers differ and
  each chooser offers every default ticker but the other's value.
\<close>

theorem other_chooser_excludes_new_ticker:
  "ticker2_options (snd (handle to_str fs (Ticker1Changed x) s)) = nix x DEFAULT_TICKERS
   \<and> ticker1_options (snd (handle to_str fs (Ticker2Changed x) s)) = nix x DEFAULT_TICKERS
   \<and> set (nix x DEFAULT_TICKERS) = set DEFAULT_TICKERS - {x}
   \<and> (choosers_ok s \<and> allowed ev s \<longrightarrow> choosers_ok (snd (handle to_str fs ev s)))"
proof -
  have inv: "choosers_ok (snd (handle to_str fs ev s))" if ok: "choosers_ok s" and al: "allowed ev s"
  proof (cases ev)
    case (Ticker1Changed new)
    then show ?thesis using ok al
      by (auto simp: choosers_ok_def ticker1_change_def update_keeps nix_set)
  next
    case (Ticker2Changed new)
    then show ?thesis using ok al
      by (auto simp: choosers_ok_def ticker2_change_def update_keeps nix_set)
  next
    case (SelectionChanged new)
    then show ?thesis using ok
      by (simp add: choosers_ok_def selection_change_keeps)
  qed
  show ?thesis
    using inv by (simp add: ticker1_change_def ticker2_change_def update_keeps nix_set)
qed

theorem other_chooser_excludes_new_ticker_witness:
  "choosers_ok initial \<and> allowed (Ticker1Changed ''INTC'') initial
   \<and> choosers_ok (snd (handle tally sample_files (Ticker1Changed ''INTC'') initial))
   \<and> ticker2_options (snd (handle tally sample_files (Ticker1Changed ''INTC'') initial)) =
       [''AAPL'', ''GOOG'', ''BRCM'', ''YHOO'']"
proof -
  have a: "allowed (Ticker1Changed ''INTC'') initial"
    by (simp add: initial_def nix_def DEFAULT_TICKERS_def)
  have n: "nix ''INTC'' DEFAULT_TICKERS = [''AAPL'', ''GOOG'', ''BRCM'', ''YHOO'']"
    by (simp add: nix_def DEFAULT_TICKERS_def)
  show ?thesis
    using other_chooser_excludes_new_ticker[of tally sample_files "''INTC''" initial "Ticker1Changed ''INTC''"]
      choosers_ok_initial a n by simp
qed

subsection \<open>Events keep the caches consistent\<close>

lemma update_caches:
  "caches (snd (update to_str fs s)) =
     snd (get_data fs (ticker1_value s) (ticker2_value s) (caches s))"
  by (cases rule: update_cases[of fs s to_str]; simp)

lemma selection_change_caches:
  "caches (snd (selection_change to_str fs a old new s)) =
     snd (get_data fs (ticker1_value s) (ticker2_value s) (caches s))"
  by (cases rule: selection_change_cases[of fs s to_str a old new]; simp add: update_stats_keeps)

lemma handle_caches:
  "caches (snd (handle to_str fs ev s)) =
     snd (get_data fs (fst (chosen ev s)) (snd (chosen ev s)) (caches s))"
  by (cases ev)
     (simp_all add: ticker1_change_def ticker2_change_def update_caches selection_change_caches)

lemma handle_cache_ok:
  "cache_ok fs (caches s) \<Longrightarrow> cache_ok fs (caches (snd (handle to_str fs ev s)))"
  by (simp add: handle_caches get_data_ok)

lemma cache_ok_initial: "cache_ok fs (caches initial)"
  by (simp add: initial_def cache_ok_def)

lemma run_cache_ok:
  "cache_ok fs (caches s) \<Longrightarrow> cache_ok fs (caches (run to_str fs evs s))"
  unfolding run_def by (induction evs arbitrary: s) (simp_all add: handle_cache_ok)

lemma select_columns_index:
  "select_columns df ks = Inr d \<Longrightarrow> df_index d = df_index df \<and> set (df_columns d) \<subseteq> set (df_columns df)"
  by (auto simp: select_columns_def split: if_splits)

subsection \<open>The empty selection\<close>

text \<open>
  C5. With the empty selection the callback summarises the dataset itself: the frame it
  hands to the statistics is the one the builder returned, with every row in the
  original order, and the statistics text it publishes is the text the ticker changes
  publish for the full dataset.
\<close>

theorem empty_selection_uses_whole_dataset:
  assumes "get_data fs (ticker1_value s) (ticker2_value s) (caches s) = (Inr df, m)"
    and "select_columns df [ticker1_value s, ticker2_value s,
           ticker1_value s @ ''_returns'', ticker2_value s @ ''_returns''] = Inr d"
  shows "handle to_str fs (SelectionChanged []) s =
           (None, s\<lparr>source_selected := [], caches := m, stats_text := to_str (describe d)\<rparr>)
         \<and> df_index d = df_index df
         \<and> set (df_columns d) \<subseteq> set (df_columns df)
         \<and> (fst (update to_str fs s) = None \<longrightarrow>
              stats_text (snd (update to_str fs s)) = to_str (describe d))"
proof -
  have h: "handle to_str fs (SelectionChanged []) s =
           (None, s\<lparr>source_selected := [], caches := m, stats_text := to_str (describe d)\<rparr>)"
    using assms by (simp add: selection_change_def update_stats_def)
  have u: "stats_text (snd (update to_str fs s)) = to_str (describe d)"
    if "fst (update to_str fs s) = None"
    using that assms by (cases rule: update_cases[of fs s to_str]) simp_all
  show ?thesis using h u select_columns_index[OF assms(2)] by blast
qed

subsection \<open>The sample dashboard\<close>

lemma build_aapl_goog: "build sample_files ''AAPL'' ''GOOG'' = Inr aapl_goog"
  by (simp add: build_def frame_defs cache_defs prog_defs sample_files_def Let_def aapl_goog_def)

lemma build_aapl_brcm: "build sample_files ''AAPL'' ''BRCM'' = Inr aapl_brcm"
  by (simp add: build_def frame_defs cache_defs prog_defs sample_files_def Let_def aapl_brcm_def)

lemma sample_tickers:
  "ticker1_value sample_dashboard = ''AAPL''" "ticker2_value sample_dashboard = ''GOOG''"
  by (simp_all add: sample_dashboard_def update_keeps initial_def)

lemma sample_cache_ok: "cache_ok sample_files (caches sample_dashboard)"
  by (simp add: sample_dashboard_def update_caches get_data_ok cache_ok_initial)

lemma sample_get_data:
  "get_data sample_files ''AAPL'' ''GOOG'' (caches sample_dashboard) =
     (Inr aapl_goog, snd (get_data sample_files ''AAPL'' ''GOOG'' (caches sample_dashboard)))"
  using get_data_ok[OF sample_cache_ok, of "''AAPL''" "''GOOG''"] build_aapl_goog
  by (metis prod.collapse)

lemma select_aapl_goog:
  "select_columns aapl_goog [''AAPL'', ''GOOG'', ''AAPL'' @ ''_returns'', ''GOOG'' @ ''_returns''] =
     Inr \<lparr>df_index = [2, 3],
          df_columns =
            [(''AAPL'', [Some 12, Some 11]), (''GOOG'', [Some 19, Some 22]),
             (''AAPL_returns'', [Some 2, Some (- 1)]), (''GOOG_returns'', [Some (- 1), Some 3])]\<rparr>"
  by (simp add: select_columns_def aapl_goog_def)

lemma tally_aapl_goog:
  "tally (describe \<lparr>df_index = [2, 3],
          df_columns =
            [(''AAPL'', [Some 12, Some 11]), (''GOOG'', [Some 19, Some 22]),
             (''AAPL_returns'', [Some 2, Some (- 1)]), (''GOOG_returns'', [Some (- 1), Some 3])]\<rparr>) =
     ''AAPL:** GOOG:** AAPL_returns:** GOOG_returns:** ''"
  by (simp add: describe_def tally_def count_two numeral_2_eq_2)

theorem empty_selection_uses_whole_dataset_witness:
  "fst (get_data sample_files ''AAPL'' ''GOOG'' (caches sample_dashboard)) = Inr aapl_goog
   \<and> fst (handle tally sample_files (SelectionChanged []) sample_dashboard) = None
   \<and> stats_text (snd (handle tally sample_files (SelectionChanged []) sample_dashboard)) =
       ''AAPL:** GOOG:** AAPL_returns:** GOOG_returns:** ''"
proof -
  have g: "get_data sample_files (ticker1_value sample_dashboard) (ticker2_value sample_dashboard)
             (caches sample_dashboard) =
           (Inr aapl_goog, snd (get_data sample_files ''AAPL'' ''GOOG'' (caches sample_dashboard)))"
    using sample_get_data by (simp add: sample_tickers)
  have c: "select_columns aapl_goog [ticker1_value sample_dashboard, ticker2_value sample_dashboard,
             ticker1_value sample_dashboard @ ''_returns'', ticker2_value sample_dashboard @ ''_returns''] =
           Inr \<lparr>df_index = [2, 3],
          df_columns =
            [(''AAPL'', [Some 12, Some 11]), (''GOOG'', [Some 19, Some 22]),
             (''AAPL_returns'', [Some 2, Some (- 1)]), (''GOOG_returns'', [Some (- 1), Some 3])]\<rparr>"
    using select_aapl_goog by (simp add: sample_tickers)
  have g1: "fst (get_data sample_files ''AAPL'' ''GOOG'' (caches sample_dashboard)) = Inr aapl_goog"
    using get_data_ok[OF sample_cache_ok, of "''AAPL''" "''GOOG''"] build_aapl_goog by simp
  have h: "handle tally sample_files (SelectionChanged []) sample_dashboard =
      (None, sample_dashboard\<lparr>source_selected := [],
         caches := snd (get_data sample_files ''AAPL'' ''GOOG'' (caches sample_dashboard)),
         stats_text := ''AAPL:** GOOG:** AAPL_returns:** GOOG_returns:** ''\<rparr>)"
    using empty_selection_uses_whole_dataset[OF g c, of tally]
    unfolding tally_aapl_goog by (rule conjunct1)
  show ?thesis unfolding h using g1 by simp
qed

subsection \<open>Selections with positions out of range\<close>

lemma iloc_in_range:
  assumes "list_all (\<lambda>i. - int (length (df_index df)) \<le> i \<and> i < int (length (df_index df))) sel"
  shows "iloc df sel =
    Inr (take_rows (map (\<lambda>i. nat (if i < 0 then i + int (length (df_index df)) else i)) sel) df)"
proof -
  have "\<not> list_ex (\<lambda>i. int (length (df_index df)) \<le> i \<or> i < - int (length (df_index df))) sel"
    using assms by (auto simp: list_all_iff list_ex_iff)
  then show ?thesis by (simp add: iloc_def Let_def)
qed

lemma iloc_out_of_range:
  assumes "\<not> list_all (\<lambda>i. - int (length (df_index df)) \<le> i \<and> i < int (length (df_index df))) sel"
  shows "iloc df sel = Inl IndexError"
proof -
  obtain i where i: "i \<in> set sel"
      "\<not> (- int (length (df_index df)) \<le> i \<and> i < int (length (df_index df)))"
    using assms by (auto simp: list_all_iff)
  then have "int (length (df_index df)) \<le> i \<or> i < - int (length (df_index df))"
    by linarith
  then have "list_ex (\<lambda>i. int (length (df_index df)) \<le> i \<or> i < - int (length (df_index df))) sel"
    using i(1) by (auto simp: list_ex_iff)
  then show ?thesis by (simp add: iloc_def Let_def)
qed

text \<open>
  C1, as the code has it. A non-empty selection is checked against the row count \<open>n\<close>
  of the dataset: when every position lies in \<open>[-n, n)\<close>, the statistics are computed
  over the rows at exactly these positions, in the order of the selection (a negative
  position counting from the end); when some position lies outside, the callback raises
  \<^verbatim>\<open>IndexError\<close> and the statistics text stays as it was.
\<close>

theorem selection_positions_are_checked:
  assumes "get_data fs (ticker1_value s) (ticker2_value s) (caches s) = (Inr df, m)"
    and "sel \<noteq> []"
  shows "handle to_str fs (SelectionChanged sel) s =
     (if list_all (\<lambda>i. - int (length (df_index df)) \<le> i \<and> i < int (length (df_index df))) sel
      then update_stats to_str
             (take_rows (map (\<lambda>i. nat (if i < 0 then i + int (length (df_index df)) else i)) sel) df)
             (ticker1_value s) (ticker2_value s) (s\<lparr>source_selected := sel, caches := m\<rparr>)
      else (Some IndexError, s\<lparr>source_selected := sel, caches := m\<rparr>))"
proof (cases "list_all (\<lambda>i. - int (length (df_index df)) \<le> i \<and> i < int (length (df_index df))) sel")
  case True
  then show ?thesis using assms iloc_in_range[OF True]
    by (simp add: selection_change_def)
next
  case False
  then show ?thesis using assms iloc_out_of_range[OF False]
    by (simp add: selection_change_def)
qed

lemma select_row_aapl_goog:
  "select_columns (take_rows [1] aapl_goog)
     [''AAPL'', ''GOOG'', ''AAPL'' @ ''_returns'', ''GOOG'' @ ''_returns''] =
     Inr \<lparr>df_index = [3],
          df_columns = [(''AAPL'', [Some 11]), (''GOOG'', [Some 22]),
                        (''AAPL_returns'', [Some (- 1)]), (''GOOG_returns'', [Some 3])]\<rparr>"
  by (simp add: select_columns_def take_rows_def aapl_goog_def)

lemma count_one: "st_count (describe_column [Some x]) = 1"
  by (simp add: describe_column_def defined_values_def Let_def)

theorem selection_positions_are_checked_witness:
  "fst (get_data sample_files ''AAPL'' ''GOOG'' (caches sample_dashboard)) = Inr aapl_goog
   \<and> handle tally sample_files (SelectionChanged [1]) sample_dashboard =
       (None, sample_dashboard\<lparr>source_selected := [1],
          caches := snd (get_data sample_files ''AAPL'' ''GOOG'' (caches sample_dashboard)),
          stats_text := ''AAPL:* GOOG:* AAPL_returns:* GOOG_returns:* ''\<rparr>)"
proof -
  have g: "get_data sample_files (ticker1_value sample_dashboard) (ticker2_value sample_dashboard)
             (caches sample_dashboard) =
           (Inr aapl_goog, snd (get_data sample_files ''AAPL'' ''GOOG'' (caches sample_dashboard)))"
    using sample_get_data by (simp add: sample_tickers)
  have n: "[1::int] \<noteq> []" by simp
  have len: "length (df_index aapl_goog) = 2" by (simp add: aapl_goog_def)
  have t: "tally (describe \<lparr>df_index = [3],
          df_columns = [(''AAPL'', [Some 11]), (''GOOG'', [Some 22]),
                        (''AAPL_returns'', [Some (- 1)]), (''GOOG_returns'', [Some 3])]\<rparr>) =
       ''AAPL:* GOOG:* AAPL_returns:* GOOG_returns:* ''"
    by (simp add: describe_def tally_def count_one)
  have h: "handle tally sample_files (SelectionChanged [1]) sample_dashboard =
       (None, sample_dashboard\<lparr>source_selected := [1],
          caches := snd (get_data sample_files ''AAPL'' ''GOOG'' (caches sample_dashboard)),
          stats_text := ''AAPL:* GOOG:* AAPL_returns:* GOOG_returns:* ''\<rparr>)"
    using selection_positions_are_checked[OF g n, of tally] select_row_aapl_goog
    by (simp add: len sample_tickers update_stats_def t)
  have g1: "fst (get_data sample_files ''AAPL'' ''GOOG'' (caches sample_dashboard)) = Inr aapl_goog"
    using get_data_ok[OF sample_cache_ok, of "''AAPL''" "''GOOG''"] build_aapl_goog by simp
  show ?thesis using h g1 by blast
qed

theorem out_of_range_selection_raises:
  "fst (handle tally sample_files (SelectionChanged [5]) sample_dashboard) = Some IndexError
   \<and> length (df_index (source_data sample_dashboard)) = 2"
proof -
  obtain m where g: "get_data sample_files ''AAPL'' ''GOOG'' (caches sample_dashboard) =
      (Inr aapl_goog, m)"
    using sample_get_data by blast
  have i: "iloc aapl_goog [5] = Inl IndexError"
    by (simp add: iloc_def aapl_goog_def)
  have "fst (handle tally sample_files (SelectionChanged [5]) sample_dashboard) = Some IndexError"
    using g i by (simp add: selection_change_def sample_tickers Let_def)
  moreover have "source_data sample_dashboard =
      \<lparr>df_index = [2, 3],
       df_columns = [(''t1'', [Some 12, Some 11]), (''t2'', [Some 19, Some 22]),
         (''t1_returns'', [Some 2, Some (- 1)]), (''t2_returns'', [Some (- 1), Some 3])]\<rparr>"
  proof (cases rule: update_cases[of sample_files initial tally])
    case (load_err e m)
    then show ?thesis
      using get_data_ok[OF cache_ok_initial, of sample_files "''AAPL''" "''GOOG''"] build_aapl_goog
      by (simp add: initial_def)
  next
    case (roles_err df m e)
    then show ?thesis
      using get_data_ok[OF cache_ok_initial, of sample_files "''AAPL''" "''GOOG''"] build_aapl_goog
      by (simp add: initial_def aapl_goog_def select_columns_def)
  next
    case (stats_err df m data e)
    then show ?thesis
      using get_data_ok[OF cache_ok_initial, of sample_files "''AAPL''" "''GOOG''"] build_aapl_goog
      by (simp add: initial_def aapl_goog_def select_columns_def sample_dashboard_def)
  next
    case (ok df m data d)
    then show ?thesis
      using get_data_ok[OF cache_ok_initial, of sample_files "''AAPL''" "''GOOG''"] build_aapl_goog
      by (simp add: initial_def aapl_goog_def select_columns_def sample_dashboard_def)
  qed
  ultimately show ?thesis by simp
qed

subsection \<open>Selection changes find the published dataset in the cache\<close>

lemma map_of_lru_store: "map_of (lru_store k v c) k = Some v"
  by (simp add: lru_store_def)

lemma lru_hit_present:
  "map_of c k = Some v \<Longrightarrow> lru_hit k c = Some (v, (k, v) # filter (\<lambda>e. fst e \<noteq> k) c)"
  by (simp add: lru_hit_def)

lemma get_data_hit:
  assumes "map_of (get_data_cache m) (t1, t2) = Some df"
  shows "get_data fs t1 t2 m =
     (Inr df, m\<lparr>get_data_cache := ((t1, t2), df) # filter (\<lambda>e. fst e \<noteq> (t1, t2)) (get_data_cache m)\<rparr>)"
  using lru_hit_present[OF assms] by (simp add: get_data_def)

lemma get_data_stores:
  assumes "get_data fs t1 t2 m = (Inr df, m')"
  shows "map_of (get_data_cache m') (t1, t2) = Some df"
proof (cases "lru_hit (t1, t2) (get_data_cache m)")
  case None
  obtain r mb where b: "get_data_body fs t1 t2 m = (r, mb)" by (cases "get_data_body fs t1 t2 m")
  show ?thesis
  proof (cases r)
    case (Inl e)
    then show ?thesis using assms None b by (simp add: get_data_def)
  next
    case (Inr d)
    then show ?thesis using assms None b by (auto simp: get_data_def map_of_lru_store)
  qed
next
  case (Some a)
  obtain d c where a: "a = (d, c)" by (cases a)
  have c: "c = ((t1, t2), d) # filter (\<lambda>e. fst e \<noteq> (t1, t2)) (get_data_cache m)"
    using lru_hit_SomeD(4)[OF Some[unfolded a]] .
  show ?thesis using assms Some a c by (auto simp: get_data_def)
qed

lemma published_after_update:
  assumes "update to_str fs s0 = (None, s1)"
  shows "\<exists>df. published_in_cache df s1 s1"
proof (cases rule: update_cases[of fs s0 to_str])
  case (ok df m data d)
  then have "published_in_cache df s1 s1"
    using assms get_data_stores[OF ok(1)] by (auto simp: published_in_cache_def)
  then show ?thesis ..
qed (use assms in simp_all)

lemma published_selection_step:
  assumes "published_in_cache df s1 s"
  shows "published_in_cache df s1 (snd (handle to_str fs (SelectionChanged sel) s))"
proof -
  let ?s = "s\<lparr>source_selected := sel\<rparr>"
  let ?k = "(ticker1_value s, ticker2_value s)"
  have m: "map_of (get_data_cache (caches s)) (ticker1_value s, ticker2_value s) = Some df"
    using assms unfolding published_in_cache_def by blast
  have hit: "get_data fs (ticker1_value ?s) (ticker2_value ?s) (caches ?s) =
      (Inr df, (caches s)\<lparr>get_data_cache := (?k, df) # filter (\<lambda>e. fst e \<noteq> ?k) (get_data_cache (caches s))\<rparr>)"
    using get_data_hit[OF m, of fs] by simp
  have c: "caches (snd (handle to_str fs (SelectionChanged sel) s)) =
      (caches s)\<lparr>get_data_cache := (?k, df) # filter (\<lambda>e. fst e \<noteq> ?k) (get_data_cache (caches s))\<rparr>"
    using hit by (simp add: selection_change_caches)
  have k: "ticker1_value (snd (handle to_str fs (SelectionChanged sel) s)) = ticker1_value s"
    "ticker2_value (snd (handle to_str fs (SelectionChanged sel) s)) = ticker2_value s"
    "source_data (snd (handle to_str fs (SelectionChanged sel) s)) = source_data s"
    by (simp_all add: selection_change_keeps)
  have a: "select_columns df [''t1'', ''t2'', ''t1_returns'', ''t2_returns''] = Inr (source_data s)"
    "source_data s = source_data s1" "ticker1_value s = ticker1_value s1"
    "ticker2_value s = ticker2_value s1" "builds (caches s) = builds (caches s1)"
    "reads (caches s) = reads (caches s1)"
    using assms unfolding published_in_cache_def by blast+
  show ?thesis
    unfolding published_in_cache_def k c using a by simp
qed

lemma published_run:
  assumes "published_in_cache df s1 s"
  shows "published_in_cache df s1 (run to_str fs (map SelectionChanged sels) s)"
  using assms unfolding run_def
  by (induction sels arbitrary: s) (simp_all add: published_selection_step del: handle.simps)

lemma update_succeeds:
  assumes ok: "cache_ok fs (caches s)"
    and b: "build fs (ticker1_value s) (ticker2_value s) = Inr df"
    and r: "select_columns df [''t1'', ''t2'', ''t1_returns'', ''t2_returns''] = Inr data"
    and n: "select_columns df [ticker1_value s, ticker2_value s,
              ticker1_value s @ ''_returns'', ticker2_value s @ ''_returns''] = Inr d"
  shows "fst (update to_str fs s) = None"
    and "source_data (snd (update to_str fs s)) = data"
    and "stats_text (snd (update to_str fs s)) = to_str (describe d)"
proof -
  have g: "fst (get_data fs (ticker1_value s) (ticker2_value s) (caches s)) = Inr df"
    using get_data_ok[OF ok] b by simp
  show "fst (update to_str fs s) = None"
    by (cases rule: update_cases[of fs s to_str]) (use g r n in simp_all)
  show "source_data (snd (update to_str fs s)) = data"
    by (cases rule: update_cases[of fs s to_str]) (use g r n in simp_all)
  show "stats_text (snd (update to_str fs s)) = to_str (describe d)"
    by (cases rule: update_cases[of fs s to_str]) (use g r n in simp_all)
qed

lemma roles_aapl_brcm:
  "select_columns aapl_brcm [''t1'', ''t2'', ''t1_returns'', ''t2_returns''] =
     Inr \<lparr>df_index = [3],
          df_columns = [(''t1'', [Some 11]), (''t2'', [Some 44]),
                        (''t1_returns'', [Some (- 1)]), (''t2_returns'', [Some 4])]\<rparr>"
  by (simp add: select_columns_def aapl_brcm_def)

lemma names_aapl_brcm:
  "select_columns aapl_brcm [''AAPL'', ''BRCM'', ''AAPL'' @ ''_returns'', ''BRCM'' @ ''_returns''] =
     Inr \<lparr>df_index = [3],
          df_columns = [(''AAPL'', [Some 11]), (''BRCM'', [Some 44]),
                        (''AAPL_returns'', [Some (- 1)]), (''BRCM_returns'', [Some 4])]\<rparr>"
  by (simp add: select_columns_def aapl_brcm_def)

lemma to_brcm:
  assumes "cache_ok sample_files (caches s)" and "ticker1_value s = ''AAPL''"
  shows "fst (handle tally sample_files (Ticker2Changed ''BRCM'') s) = None"
    and "source_data (snd (handle tally sample_files (Ticker2Changed ''BRCM'') s)) =
          \<lparr>df_index = [3],
           df_columns = [(''t1'', [Some 11]), (''t2'', [Some 44]),
                         (''t1_returns'', [Some (- 1)]), (''t2_returns'', [Some 4])]\<rparr>"
proof -
  let ?s = "s\<lparr>ticker2_value := ''BRCM'', ticker1_options := nix ''BRCM'' DEFAULT_TICKERS\<rparr>"
  have ok: "cache_ok sample_files (caches ?s)" using assms by simp
  have b: "build sample_files (ticker1_value ?s) (ticker2_value ?s) = Inr aapl_brcm"
    using build_aapl_brcm assms by simp
  have n: "select_columns aapl_brcm [ticker1_value ?s, ticker2_value ?s,
              ticker1_value ?s @ ''_returns'', ticker2_value ?s @ ''_returns''] =
     Inr \<lparr>df_index = [3],
          df_columns = [(''AAPL'', [Some 11]), (''BRCM'', [Some 44]),
                        (''AAPL_returns'', [Some (- 1)]), (''BRCM_returns'', [Some 4])]\<rparr>"
    using names_aapl_brcm assms by simp
  show "fst (handle tally sample_files (Ticker2Changed ''BRCM'') s) = None"
    using update_succeeds(1)[OF ok b roles_aapl_brcm n, of tally]
    by (simp add: ticker2_change_def)
  show "source_data (snd (handle tally sample_files (Ticker2Changed ''BRCM'') s)) =
          \<lparr>df_index = [3],
           df_columns = [(''t1'', [Some 11]), (''t2'', [Some 44]),
                         (''t1_returns'', [Some (- 1)]), (''t2_returns'', [Some 4])]\<rparr>"
    using update_succeeds(2)[OF ok b roles_aapl_brcm n, of tally]
    by (simp add: ticker2_change_def)
qed

subsection \<open>Identifier changes\<close>

lemma update_republishes:
  assumes ok: "cache_ok fs (caches s)" and u: "update to_str fs s = (None, s')"
  shows "\<exists>df data d.
       build fs (ticker1_value s) (ticker2_value s) = Inr df
     \<and> select_columns df [''t1'', ''t2'', ''t1_returns'', ''t2_returns''] = Inr data
     \<and> source_data s' = data \<and> source_static_data s' = data
     \<and> select_columns df [ticker1_value s, ticker2_value s,
           ticker1_value s @ ''_returns'', ticker2_value s @ ''_returns''] = Inr d
     \<and> df_index d = df_index df
     \<and> stats_text s' = to_str (describe d)"
proof (cases rule: update_cases[of fs s to_str])
  case (ok df m data d)
  have b: "build fs (ticker1_value s) (ticker2_value s) = Inr df"
    using get_data_ok[OF assms(1), of "ticker1_value s" "ticker2_value s"] ok(1) by simp
  have s': "s' = s\<lparr>caches := m, source_data := data, source_static_data := data,
       stats_text := to_str (describe d),
       corr_title := ticker1_value s @ '' returns vs. '' @ ticker2_value s @ '' returns'',
       ts1_title := ticker1_value s, ts2_title := ticker2_value s\<rparr>"
    using u ok(4) by simp
  show ?thesis
    using b ok(2) ok(3) select_columns_index[OF ok(3)] unfolding s' by auto
qed (use u in simp_all)

text \<open>
  C6, as the code has it. After an identifier change that completes, the published
  dataset is the four role columns of the dataset built for the new pair of tickers, and
  the published statistics are the summary of all rows of that dataset. The selection
  is not reset: the callback leaves \<^verbatim>\<open>source.selected.indices\<close> as it was.
\<close>

theorem identifier_change_republishes:
  assumes "identifier_change ev" and "cache_ok fs (caches s)"
    and "handle to_str fs ev s = (None, s')"
  shows "(ticker1_value s', ticker2_value s') = chosen ev s
     \<and> (\<exists>df data d.
           build fs (fst (chosen ev s)) (snd (chosen ev s)) = Inr df
         \<and> select_columns df [''t1'', ''t2'', ''t1_returns'', ''t2_returns''] = Inr data
         \<and> source_data s' = data \<and> source_static_data s' = data
         \<and> select_columns df [ticker1_value s', ticker2_value s',
               ticker1_value s' @ ''_returns'', ticker2_value s' @ ''_returns''] = Inr d
         \<and> df_index d = df_index df
         \<and> stats_text s' = to_str (describe d))
     \<and> source_selected s' = source_selected s"
proof -
  have s': "s' = snd (handle to_str fs ev s)" using assms(3) by simp
  have p: "(ticker1_value s', ticker2_value s') = chosen ev s"
    unfolding s' by (rule handle_pair)
  have k: "source_selected s' = source_selected s"
    unfolding s' using assms(1) by (rule handle_keeps_selection)
  obtain s0 where s0: "update to_str fs s0 = (None, s')" "caches s0 = caches s"
      "(ticker1_value s0, ticker2_value s0) = chosen ev s"
    using assms(1,3) by (cases ev) (auto simp: ticker1_change_def ticker2_change_def)
  have ok0: "cache_ok fs (caches s0)" using assms(2) s0(2) by simp
  have t: "ticker1_value s0 = fst (chosen ev s)" "ticker2_value s0 = snd (chosen ev s)"
    using s0(3) by (metis fst_conv, metis snd_conv)
  have t': "ticker1_value s' = fst (chosen ev s)" "ticker2_value s' = snd (chosen ev s)"
    using p by (metis fst_conv, metis snd_conv)
  show ?thesis
    using update_republishes[OF ok0 s0(1)] p k unfolding t t' by blast
qed

theorem identifier_change_republishes_witness:
  "identifier_change (Ticker2Changed ''BRCM'') \<and> cache_ok sample_files (caches sample_dashboard)
   \<and> fst (handle tally sample_files (Ticker2Changed ''BRCM'') sample_dashboard) = None
   \<and> chosen (Ticker2Changed ''BRCM'') sample_dashboard = (''AAPL'', ''BRCM'')
   \<and> ticker2_value (snd (handle tally sample_files (Ticker2Changed ''BRCM'') sample_dashboard)) = ''BRCM''
   \<and> source_selected (snd (handle tally sample_files (Ticker2Changed ''BRCM'') sample_dashboard)) =
       source_selected sample_dashboard"
proof -
  let ?s1 = "snd (handle tally sample_files (Ticker2Changed ''BRCM'') sample_dashboard)"
  have i: "identifier_change (Ticker2Changed ''BRCM'')" by simp
  have f: "fst (handle tally sample_files (Ticker2Changed ''BRCM'') sample_dashboard) = None"
    using to_brcm(1)[OF sample_cache_ok sample_tickers(1)] .
  then have h: "handle tally sample_files (Ticker2Changed ''BRCM'') sample_dashboard = (None, ?s1)"
    by (metis prod.collapse)
  have c: "chosen (Ticker2Changed ''BRCM'') sample_dashboard = (''AAPL'', ''BRCM'')"
    by (simp add: sample_tickers)
  have "(ticker1_value ?s1, ticker2_value ?s1) = chosen (Ticker2Changed ''BRCM'') sample_dashboard
     \<and> source_selected ?s1 = source_selected sample_dashboard"
    using identifier_change_republishes[OF i sample_cache_ok h] by blast
  then show ?thesis using i f c sample_cache_ok by simp
qed

theorem identifier_change_keeps_selection:
  "fst (handle tally sample_files (Ticker2Changed ''BRCM'')
          (snd (handle tally sample_files (SelectionChanged [0]) sample_dashboard))) = None
   \<and> source_selected (snd (handle tally sample_files (Ticker2Changed ''BRCM'')
          (snd (handle tally sample_files (SelectionChanged [0]) sample_dashboard)))) = [0]"
proof -
  let ?sa = "snd (handle tally sample_files (SelectionChanged [0]) sample_dashboard)"
  have ok: "cache_ok sample_files (caches ?sa)"
    using handle_cache_ok[OF sample_cache_ok] .
  have t: "ticker1_value ?sa = ''AAPL''"
    by (simp add: selection_change_keeps sample_tickers)
  have sel: "source_selected ?sa = [0]"
    by (simp add: selection_change_keeps)
  have "source_selected (snd (handle tally sample_files (Ticker2Changed ''BRCM'') ?sa)) =
      source_selected ?sa"
    by (rule handle_keeps_selection) simp
  then show ?thesis using to_brcm(1)[OF ok t] sel by simp
qed

subsection \<open>The joined frame, column by column\<close>

lemma read_frame_columns:
  assumes "read_frame fs t = Inr df"
  shows "\<exists>a. df_columns df = [(t, a), (t @ ''_returns'', diff a)] \<and> length a = length (df_index df)"
proof -
  have "fst (load_ticker_body fs t empty_memo) = Inr df"
    using assms read_frame_body[of fs t empty_memo] by simp
  then show ?thesis
    by (auto simp: load_ticker_body_def Let_def split: option.splits if_splits)
qed

lemma join_frames_columns:
  assumes n: "names_ok t1 t2"
    and c: "concat_axis1 df1 df2 = Inr c"
    and cols: "df_columns c = [(t1, a), (t1 @ ''_returns'', ar), (t2, b), (t2 @ ''_returns'', br)]"
    and keep: "keep = filter (row_defined (df_columns c)) [0..<length (df_index c)]"
  shows "join_frames t1 t2 df1 df2 =
     Inr \<lparr>df_index = map ((!) (df_index c)) keep,
          df_columns =
            [(t1, map ((!) a) keep), (t1 @ ''_returns'', map ((!) ar) keep),
             (t2, map ((!) b) keep), (t2 @ ''_returns'', map ((!) br) keep),
             (''t1'', map ((!) a) keep), (''t2'', map ((!) b) keep),
             (''t1_returns'', map ((!) ar) keep), (''t2_returns'', map ((!) br) keep)]\<rparr>"
proof -
  have d: "dropna c = \<lparr>df_index = map ((!) (df_index c)) keep,
          df_columns =
            [(t1, map ((!) a) keep), (t1 @ ''_returns'', map ((!) ar) keep),
             (t2, map ((!) b) keep), (t2 @ ''_returns'', map ((!) br) keep)]\<rparr>"
    by (simp add: dropna_def take_rows_def cols keep)
  have ne: "t1 \<noteq> t2" "t2 \<noteq> t1" "t1 \<noteq> t2 @ ''_returns''" "t2 \<noteq> t1 @ ''_returns''"
    "t2 @ ''_returns'' \<noteq> t1" "t1 @ ''_returns'' \<noteq> t2"
    "t1 \<noteq> ''t1''" "t1 \<noteq> ''t2''" "t1 \<noteq> ''t1_returns''" "t1 \<noteq> ''t2_returns''"
    "t2 \<noteq> ''t1''" "t2 \<noteq> ''t2''" "t2 \<noteq> ''t1_returns''" "t2 \<noteq> ''t2_returns''"
    "t1 @ ''_returns'' \<noteq> ''t1''" "t1 @ ''_returns'' \<noteq> ''t2''"
    "t1 @ ''_returns'' \<noteq> ''t1_returns''" "t1 @ ''_returns'' \<noteq> ''t2_returns''"
    "t2 @ ''_returns'' \<noteq> ''t1''" "t2 @ ''_returns'' \<noteq> ''t2''"
    "t2 @ ''_returns'' \<noteq> ''t1_returns''" "t2 @ ''_returns'' \<noteq> ''t2_returns''"
    using n by (auto simp: names_ok_def)
  note ne' = ne[symmetric]
  show ?thesis
    unfolding join_frames_def c bind_err_simps Let_def d
    using ne ne' by (simp add: getitem_def setitem_def)
qed

lemma names_ok_neq:
  assumes "names_ok t1 t2"
  shows "t1 \<noteq> t2" "t1 \<noteq> t2 @ ''_returns''" "t2 \<noteq> t1 @ ''_returns''"
    "t1 \<noteq> ''t1''" "t1 \<noteq> ''t2''" "t1 \<noteq> ''t1_returns''" "t1 \<noteq> ''t2_returns''"
    "t2 \<noteq> ''t1''" "t2 \<noteq> ''t2''" "t2 \<noteq> ''t1_returns''" "t2 \<noteq> ''t2_returns''"
    "t1 @ ''_returns'' \<noteq> ''t1''" "t1 @ ''_returns'' \<noteq> ''t2''"
    "t1 @ ''_returns'' \<noteq> ''t1_returns''" "t1 @ ''_returns'' \<noteq> ''t2_returns''"
    "t2 @ ''_returns'' \<noteq> ''t1''" "t2 @ ''_returns'' \<noteq> ''t2''"
    "t2 @ ''_returns'' \<noteq> ''t1_returns''" "t2 @ ''_returns'' \<noteq> ''t2_returns''"
  using assms by (auto simp: names_ok_def)

lemma names_ok_swap: "names_ok t1 t2 \<Longrightarrow> names_ok t2 t1"
  by (auto simp: names_ok_def)

lemma sorted_union_commute:
  "sort (remdups (xs @ ys)) = sort (remdups (ys @ xs))" for xs :: "nat list"
  by (rule sorted_distinct_set_unique) (auto simp: distinct_sort)

lemma row_defined_swap:
  "row_defined [x1, x2, x3, x4] = row_defined [x3, x4, x1, x2]"
  by (rule ext) (auto simp: row_defined_def)

lemma concat_axis1_swap:
  assumes c1: "df_columns df1 = [(t1, a), (u1, ar)]"
    and c2: "df_columns df2 = [(t2, b), (u2, br)]"
    and c: "concat_axis1 df1 df2 = Inr c"
  shows "\<exists>a' ar' b' br'.
     df_columns c = [(t1, a'), (u1, ar'), (t2, b'), (u2, br')]
     \<and> concat_axis1 df2 df1 =
         Inr \<lparr>df_index = df_index c, df_columns = [(t2, b'), (u2, br'), (t1, a'), (u1, ar')]\<rparr>"
proof (cases "df_index df1 = df_index df2")
  case True
  then show ?thesis using c c1 c2 by (auto simp: concat_axis1_def)
next
  case False
  then have ne: "df_index df2 \<noteq> df_index df1" by simp
  have d: "distinct (df_index df1) \<and> distinct (df_index df2)"
    using c False by (auto simp: concat_axis1_def split: if_splits)
  show ?thesis
    using c False ne d c1 c2
    by (auto simp: concat_axis1_def Let_def sorted_union_commute[of "df_index df2" "df_index df1"])
qed

lemma build_explicit:
  assumes n: "names_ok t1 t2" and b: "build fs t1 t2 = Inr d12"
  shows "\<exists>idx A AR B BR.
     d12 = \<lparr>df_index = idx,
            df_columns = [(t1, A), (t1 @ ''_returns'', AR), (t2, B), (t2 @ ''_returns'', BR),
                          (''t1'', A), (''t2'', B), (''t1_returns'', AR), (''t2_returns'', BR)]\<rparr>
   \<and> build fs t2 t1 =
       Inr \<lparr>df_index = idx,
            df_columns = [(t2, B), (t2 @ ''_returns'', BR), (t1, A), (t1 @ ''_returns'', AR),
                          (''t1'', B), (''t2'', A), (''t1_returns'', BR), (''t2_returns'', AR)]\<rparr>"
proof -
  obtain df1 where r1: "read_frame fs t1 = Inr df1"
    using b unfolding build_unfold by (cases "read_frame fs t1") simp_all
  obtain df2 where r2: "read_frame fs t2 = Inr df2"
    using b r1 unfolding build_unfold by (cases "read_frame fs t2") simp_all
  have j12: "join_frames t1 t2 df1 df2 = Inr d12"
    using b r1 r2 unfolding build_unfold by simp
  obtain a where c1: "df_columns df1 = [(t1, a), (t1 @ ''_returns'', diff a)]"
    using read_frame_columns[OF r1] by blast
  obtain b' where c2: "df_columns df2 = [(t2, b'), (t2 @ ''_returns'', diff b')]"
    using read_frame_columns[OF r2] by blast
  obtain c where c: "concat_axis1 df1 df2 = Inr c"
    using j12 unfolding join_frames_def by (cases "concat_axis1 df1 df2") simp_all
  obtain x xr y yr where cols: "df_columns c = [(t1, x), (t1 @ ''_returns'', xr), (t2, y), (t2 @ ''_returns'', yr)]"
    and c': "concat_axis1 df2 df1 =
       Inr \<lparr>df_index = df_index c,
            df_columns = [(t2, y), (t2 @ ''_returns'', yr), (t1, x), (t1 @ ''_returns'', xr)]\<rparr>"
    using concat_axis1_swap[OF c1 c2 c] by blast
  define keep where "keep = filter (row_defined (df_columns c)) [0..<length (df_index c)]"
  let ?c' = "\<lparr>df_index = df_index c,
            df_columns = [(t2, y), (t2 @ ''_returns'', yr), (t1, x), (t1 @ ''_returns'', xr)]\<rparr>"
  have cols': "df_columns ?c' = [(t2, y), (t2 @ ''_returns'', yr), (t1, x), (t1 @ ''_returns'', xr)]"
    by simp
  have keep': "keep = filter (row_defined (df_columns ?c')) [0..<length (df_index ?c')]"
    unfolding keep_def cols
    by (simp add: row_defined_swap[of "(t1, x)" "(t1 @ ''_returns'', xr)" "(t2, y)" "(t2 @ ''_returns'', yr)"])
  have e12: "d12 = \<lparr>df_index = map ((!) (df_index c)) keep,
          df_columns =
            [(t1, map ((!) x) keep), (t1 @ ''_returns'', map ((!) xr) keep),
             (t2, map ((!) y) keep), (t2 @ ''_returns'', map ((!) yr) keep),
             (''t1'', map ((!) x) keep), (''t2'', map ((!) y) keep),
             (''t1_returns'', map ((!) xr) keep), (''t2_returns'', map ((!) yr) keep)]\<rparr>"
    using join_frames_columns[OF n c cols keep_def] j12 by simp
  have e21: "join_frames t2 t1 df2 df1 = Inr \<lparr>df_index = map ((!) (df_index c)) keep,
          df_columns =
            [(t2, map ((!) y) keep), (t2 @ ''_returns'', map ((!) yr) keep),
             (t1, map ((!) x) keep), (t1 @ ''_returns'', map ((!) xr) keep),
             (''t1'', map ((!) y) keep), (''t2'', map ((!) x) keep),
             (''t1_returns'', map ((!) yr) keep), (''t2_returns'', map ((!) xr) keep)]\<rparr>"
    using join_frames_columns[OF names_ok_swap[OF n] c' cols' keep'] by simp
  have b21: "build fs t2 t1 = join_frames t2 t1 df2 df1"
    using r1 r2 by (simp add: build_unfold)
  show ?thesis
    unfolding e12 b21 e21 by (intro exI conjI) (rule refl)+
qed

subsection \<open>Swapping the two tickers\<close>

lemma load_ticker_builds [simp]: "builds (snd (load_ticker fs t m)) = builds m"
proof (cases "lru_hit t (load_ticker_cache m)")
  case None
  then show ?thesis
    by (simp add: load_ticker_def load_ticker_body_def Let_def split: option.splits)
next
  case (Some a)
  then show ?thesis by (cases a) (simp add: load_ticker_def)
qed

lemma get_data_body_builds: "builds (snd (get_data_body fs t1 t2 m)) = (t1, t2) # builds m"
proof -
  let ?m0 = "m\<lparr>builds := (t1, t2) # builds m\<rparr>"
  obtain r1 m1 where l1: "load_ticker fs t1 ?m0 = (r1, m1)" by (cases "load_ticker fs t1 ?m0")
  obtain r2 m2 where l2: "load_ticker fs t2 m1 = (r2, m2)" by (cases "load_ticker fs t2 m1")
  have b1: "builds m1 = (t1, t2) # builds m" using load_ticker_builds[of fs t1 ?m0] l1 by simp
  have b2: "builds m2 = (t1, t2) # builds m" using load_ticker_builds[of fs t2 m1] l2 b1 by simp
  show ?thesis
    using l1 l2 b1 b2 by (cases r1; cases r2) (simp_all add: get_data_body_def)
qed

lemma get_data_miss_builds:
  assumes "k = (t1, t2)" and "k \<notin> fst ` set (get_data_cache m)"
  shows "builds (snd (get_data fs t1 t2 m)) = (t1, t2) # builds m"
proof -
  have miss: "lru_hit (t1, t2) (get_data_cache m) = None"
    using assms by (simp add: lru_hit_None_iff map_of_eq_None_iff)
  obtain r mb where b: "get_data_body fs t1 t2 m = (r, mb)" by (cases "get_data_body fs t1 t2 m")
  have "builds mb = (t1, t2) # builds m" using get_data_body_builds[of fs t1 t2 m] b by simp
  then show ?thesis using miss b by (cases r) (simp_all add: get_data_def)
qed

lemma get_data_keys:
  "fst ` set (get_data_cache (snd (get_data fs t1 t2 m))) \<subseteq>
     insert (t1, t2) (fst ` set (get_data_cache m))"
proof (cases "lru_hit (t1, t2) (get_data_cache m)")
  case None
  obtain r mb where b: "get_data_body fs t1 t2 m = (r, mb)" by (cases "get_data_body fs t1 t2 m")
  have g: "get_data_cache mb = get_data_cache m"
  proof -
    let ?m0 = "m\<lparr>builds := (t1, t2) # builds m\<rparr>"
    obtain r1 m1 where l1: "load_ticker fs t1 ?m0 = (r1, m1)" by (cases "load_ticker fs t1 ?m0")
    obtain r2 m2 where l2: "load_ticker fs t2 m1 = (r2, m2)" by (cases "load_ticker fs t2 m1")
    have c1: "get_data_cache m1 = get_data_cache m"
      using load_ticker_get_data_cache[of fs t1 ?m0] l1 by simp
    have c2: "get_data_cache m2 = get_data_cache m"
      using load_ticker_get_data_cache[of fs t2 m1] l2 c1 by simp
    show ?thesis using b l1 l2 c1 c2 by (cases r1; cases r2) (auto simp: get_data_body_def)
  qed
  show ?thesis
  proof (cases r)
    case (Inl e)
    then show ?thesis using None b g by (auto simp: get_data_def)
  next
    case (Inr df)
    then show ?thesis
      using None b g set_lru_store[of "(t1, t2)" df "get_data_cache m"]
      by (auto simp: get_data_def)
  qed
next
  case (Some a)
  obtain d c where a: "a = (d, c)" by (cases a)
  show ?thesis
    using Some a lru_hit_SomeD(2)[OF Some[unfolded a]] by (auto simp: get_data_def)
qed

text \<open>
  C3, as the code has it. For two well-named tickers, the datasets built in the two
  orders have the same dates in the same order, and the level and return columns of the
  one are those of the other with the roles \<open>t1\<close> and \<open>t2\<close> swapped. The cache of
  \<^verbatim>\<open>get_data\<close> is keyed by the ordered pair: the call in the swapped order does not
  find the entry of the first call and runs the body of \<^verbatim>\<open>get_data\<close> again.
\<close>

theorem swapped_build_is_symmetric_and_recomputed:
  assumes n: "names_ok t1 t2" and ok: "cache_ok fs m"
    and g: "get_data fs t1 t2 m = (Inr d12, m1)"
  shows "\<exists>d21 A B AR BR.
      fst (get_data fs t2 t1 m1) = Inr d21
    \<and> df_index d21 = df_index d12
    \<and> getitem d12 ''t1'' = Inr A \<and> getitem d21 ''t2'' = Inr A
    \<and> getitem d12 ''t2'' = Inr B \<and> getitem d21 ''t1'' = Inr B
    \<and> getitem d12 ''t1_returns'' = Inr AR \<and> getitem d21 ''t2_returns'' = Inr AR
    \<and> getitem d12 ''t2_returns'' = Inr BR \<and> getitem d21 ''t1_returns'' = Inr BR
    \<and> ((t2, t1) \<notin> fst ` set (get_data_cache m) \<longrightarrow>
          builds (snd (get_data fs t2 t1 m1)) = (t2, t1) # builds m1)"
proof -
  have b12: "build fs t1 t2 = Inr d12" and ok1: "cache_ok fs m1"
    using get_data_ok[OF ok, of t1 t2] g by simp_all
  obtain idx A AR B BR where
    e12: "d12 = \<lparr>df_index = idx,
            df_columns = [(t1, A), (t1 @ ''_returns'', AR), (t2, B), (t2 @ ''_returns'', BR),
                          (''t1'', A), (''t2'', B), (''t1_returns'', AR), (''t2_returns'', BR)]\<rparr>"
    and b21: "build fs t2 t1 =
       Inr \<lparr>df_index = idx,
            df_columns = [(t2, B), (t2 @ ''_returns'', BR), (t1, A), (t1 @ ''_returns'', AR),
                          (''t1'', B), (''t2'', A), (''t1_returns'', BR), (''t2_returns'', AR)]\<rparr>"
    using build_explicit[OF n b12] by blast
  let ?d21 = "\<lparr>df_index = idx,
            df_columns = [(t2, B), (t2 @ ''_returns'', BR), (t1, A), (t1 @ ''_returns'', AR),
                          (''t1'', B), (''t2'', A), (''t1_returns'', BR), (''t2_returns'', AR)]\<rparr>"
  have g21: "fst (get_data fs t2 t1 m1) = Inr ?d21"
    using get_data_ok[OF ok1, of t2 t1] b21 by simp
  note ne = names_ok_neq[OF n]
  note ne' = ne[symmetric]
  have i12: "getitem d12 ''t1'' = Inr A" "getitem d12 ''t2'' = Inr B"
    "getitem d12 ''t1_returns'' = Inr AR" "getitem d12 ''t2_returns'' = Inr BR"
    unfolding e12 using ne ne' by (simp_all add: getitem_def)
  have i21: "getitem ?d21 ''t2'' = Inr A" "getitem ?d21 ''t1'' = Inr B"
    "getitem ?d21 ''t2_returns'' = Inr AR" "getitem ?d21 ''t1_returns'' = Inr BR"
    using ne ne' by (simp_all add: getitem_def)
  have idx: "df_index ?d21 = df_index d12" unfolding e12 by simp
  have rec: "builds (snd (get_data fs t2 t1 m1)) = (t2, t1) # builds m1"
    if "(t2, t1) \<notin> fst ` set (get_data_cache m)"
  proof -
    have "m1 = snd (get_data fs t1 t2 m)" using g by simp
    then have "fst ` set (get_data_cache m1) \<subseteq> insert (t1, t2) (fst ` set (get_data_cache m))"
      using get_data_keys[of fs t1 t2 m] by simp
    then have "(t2, t1) \<notin> fst ` set (get_data_cache m1)"
      using that ne(1) by auto
    then show ?thesis using get_data_miss_builds[of "(t2, t1)" t2 t1 m1 fs] by simp
  qed
  show ?thesis
    using g21 idx i12 i21 rec by blast
qed

lemma names_ok_A_B: "names_ok ''A'' ''B''"
  by (simp add: names_ok_def)

lemma get_data_A_B:
  "fst (get_data sample_files ''A'' ''B'' empty_memo) =
     Inr \<lparr>df_index = [2, 3],
          df_columns =
            [(''A'', [Some 12, Some 11]), (''A_returns'', [Some 2, Some (- 1)]),
             (''B'', [Some 19, Some 22]), (''B_returns'', [Some (- 1), Some 3]),
             (''t1'', [Some 12, Some 11]), (''t2'', [Some 19, Some 22]),
             (''t1_returns'', [Some 2, Some (- 1)]), (''t2_returns'', [Some (- 1), Some 3])]\<rparr>"
  by (simp add: frame_defs cache_defs prog_defs sample_files_def Let_def)

theorem swapped_build_is_symmetric_and_recomputed_witness:
  "names_ok ''A'' ''B'' \<and> cache_ok sample_files empty_memo
   \<and> bind_err (fst (get_data sample_files ''A'' ''B'' empty_memo)) (\<lambda>d. getitem d ''t2'') =
       Inr [Some 19, Some 22]
   \<and> bind_err (fst (get_data sample_files ''B'' ''A''
                      (snd (get_data sample_files ''A'' ''B'' empty_memo))))
        (\<lambda>d. getitem d ''t1'') = Inr [Some 19, Some 22]"
proof -
  let ?d12 = "\<lparr>df_index = [2, 3],
          df_columns =
            [(''A'', [Some 12, Some 11]), (''A_returns'', [Some 2, Some (- 1)]),
             (''B'', [Some 19, Some 22]), (''B_returns'', [Some (- 1), Some (3::real)]),
             (''t1'', [Some 12, Some 11]), (''t2'', [Some 19, Some 22]),
             (''t1_returns'', [Some 2, Some (- 1)]), (''t2_returns'', [Some (- 1), Some 3])]\<rparr>"
  let ?m1 = "snd (get_data sample_files ''A'' ''B'' empty_memo)"
  have g: "get_data sample_files ''A'' ''B'' empty_memo = (Inr ?d12, ?m1)"
    using get_data_A_B by (metis prod.collapse)
  have i: "getitem ?d12 ''t2'' = Inr [Some 19, Some 22]"
    by (simp add: getitem_def)
  obtain d21 B where "fst (get_data sample_files ''B'' ''A'' ?m1) = Inr d21"
    "getitem ?d12 ''t2'' = Inr B" "getitem d21 ''t1'' = Inr B"
    using swapped_build_is_symmetric_and_recomputed[OF names_ok_A_B cache_ok_empty g] by blast
  then have "bind_err (fst (get_data sample_files ''B'' ''A'' ?m1)) (\<lambda>d. getitem d ''t1'') =
      Inr [Some 19, Some 22]"
    using i by simp
  moreover have "bind_err (fst (get_data sample_files ''A'' ''B'' empty_memo)) (\<lambda>d. getitem d ''t2'') =
       Inr [Some 19, Some 22]"
    unfolding get_data_A_B using i by simp
  ultimately show ?thesis using names_ok_A_B cache_ok_empty by blast
qed

theorem swapped_call_runs_body_again:
  "builds (snd (get_data sample_files ''A'' ''B'' empty_memo)) = [(''A'', ''B'')]
   \<and> builds (snd (get_data sample_files ''B'' ''A''
               (snd (get_data sample_files ''A'' ''B'' empty_memo)))) =
       [(''B'', ''A''), (''A'', ''B'')]"
proof -
  have k0: "(''A'', ''B'') \<notin> fst ` set (get_data_cache empty_memo)"
    by (simp add: empty_memo_def)
  have b1: "builds (snd (get_data sample_files ''A'' ''B'' empty_memo)) = [(''A'', ''B'')]"
    using get_data_miss_builds[OF refl k0, of sample_files] by (simp add: empty_memo_def)
  have "fst ` set (get_data_cache (snd (get_data sample_files ''A'' ''B'' empty_memo))) \<subseteq>
      insert (''A'', ''B'') (fst ` set (get_data_cache empty_memo))"
    by (rule get_data_keys)
  then have k1: "(''B'', ''A'') \<notin> fst ` set (get_data_cache (snd (get_data sample_files ''A'' ''B'' empty_memo)))"
    by (auto simp: empty_memo_def)
  show ?thesis
    using get_data_miss_builds[OF refl k1, of sample_files] b1 by simp
qed

subsection \<open>Series without a common date\<close>

lemma reindex_missing:
  assumes "new ! j \<notin> set old" and "j < length new"
  shows "reindex old new vals ! j = None"
proof -
  have "new ! j \<notin> fst ` set (zip old vals)"
    using assms(1) by (auto dest: set_zip_leftD)
  then have "map_of (zip old vals) (new ! j) = None"
    by (simp add: map_of_eq_None_iff)
  then show ?thesis using assms(2) by (simp add: reindex_def)
qed

lemma concat_disjoint_rows:
  assumes c1: "df_columns df1 = [(t1, a), (u1, ar)]"
    and c2: "df_columns df2 = [(t2, b), (u2, br)]"
    and c: "concat_axis1 df1 df2 = Inr c"
    and dis: "set (df_index df1) \<inter> set (df_index df2) = {}"
  shows "filter (row_defined (df_columns c)) [0..<length (df_index c)] = []"
proof (cases "df_index df1 = df_index df2")
  case True
  then have "df_index df1 = []" using dis by auto
  then have "df_index c = []" using c True by (auto simp: concat_axis1_def)
  then show ?thesis by simp
next
  case False
  let ?idx = "sort (remdups (df_index df1 @ df_index df2))"
  have e: "c = \<lparr>df_index = ?idx,
       df_columns = [(t1, reindex (df_index df1) ?idx a), (u1, reindex (df_index df1) ?idx ar),
                     (t2, reindex (df_index df2) ?idx b), (u2, reindex (df_index df2) ?idx br)]\<rparr>"
    using c False c1 c2 by (auto simp: concat_axis1_def Let_def split: if_splits)
  have "\<not> row_defined (df_columns c) j" if j: "j < length ?idx" for j
  proof (cases "?idx ! j \<in> set (df_index df1)")
    case True
    then have "?idx ! j \<notin> set (df_index df2)" using dis by auto
    then have "reindex (df_index df2) ?idx b ! j = None"
      using j by (rule reindex_missing)
    then show ?thesis unfolding e by (simp add: row_defined_def)
  next
    case False
    then have "reindex (df_index df1) ?idx a ! j = None"
      using j by (rule reindex_missing)
    then show ?thesis unfolding e by (simp add: row_defined_def)
  qed
  then have "\<forall>j\<in>set [0..<length (df_index c)]. \<not> row_defined (df_columns c) j"
    unfolding e by simp
  then show ?thesis by (simp add: filter_empty_conv)
qed

lemma build_disjoint:
  assumes n: "names_ok t1 t2"
    and r1: "read_frame fs t1 = Inr df1" and r2: "read_frame fs t2 = Inr df2"
    and d1: "distinct (df_index df1)" and d2: "distinct (df_index df2)"
    and dis: "set (df_index df1) \<inter> set (df_index df2) = {}"
  shows "build fs t1 t2 =
     Inr \<lparr>df_index = [],
          df_columns = [(t1, []), (t1 @ ''_returns'', []), (t2, []), (t2 @ ''_returns'', []),
                        (''t1'', []), (''t2'', []), (''t1_returns'', []), (''t2_returns'', [])]\<rparr>"
proof -
  obtain a where c1: "df_columns df1 = [(t1, a), (t1 @ ''_returns'', diff a)]"
    using read_frame_columns[OF r1] by blast
  obtain b where c2: "df_columns df2 = [(t2, b), (t2 @ ''_returns'', diff b)]"
    using read_frame_columns[OF r2] by blast
  have "\<exists>c. concat_axis1 df1 df2 = Inr c"
    using d1 d2 by (simp add: concat_axis1_def Let_def)
  then obtain c where c: "concat_axis1 df1 df2 = Inr c" ..
  obtain x xr y yr where cols:
    "df_columns c = [(t1, x), (t1 @ ''_returns'', xr), (t2, y), (t2 @ ''_returns'', yr)]"
    using concat_axis1_swap[OF c1 c2 c] by blast
  have keep: "[] = filter (row_defined (df_columns c)) [0..<length (df_index c)]"
    using concat_disjoint_rows[OF c1 c2 c dis] by simp
  have "join_frames t1 t2 df1 df2 =
     Inr \<lparr>df_index = [],
          df_columns = [(t1, []), (t1 @ ''_returns'', []), (t2, []), (t2 @ ''_returns'', []),
                        (''t1'', []), (''t2'', []), (''t1_returns'', []), (''t2_returns'', [])]\<rparr>"
    using join_frames_columns[OF n c cols keep] by simp
  then show ?thesis using r1 r2 by (simp add: build_unfold)
qed

text \<open>
  C2, as the code has it. When the two series load, each with its dates all different,
  and share no date, \<^verbatim>\<open>get_data\<close> raises nothing: it returns a dataset with no row
  (every column is empty) and stores it in its cache like any other result.
\<close>

theorem disjoint_series_give_empty_dataset:
  assumes "names_ok t1 t2" and "cache_ok fs m"
    and "read_frame fs t1 = Inr df1" and "read_frame fs t2 = Inr df2"
    and "distinct (df_index df1)" and "distinct (df_index df2)"
    and "set (df_index df1) \<inter> set (df_index df2) = {}"
  shows "fst (get_data fs t1 t2 m) =
     Inr \<lparr>df_index = [],
          df_columns = [(t1, []), (t1 @ ''_returns'', []), (t2, []), (t2 @ ''_returns'', []),
                        (''t1'', []), (''t2'', []), (''t1_returns'', []), (''t2_returns'', [])]\<rparr>
     \<and> map_of (get_data_cache (snd (get_data fs t1 t2 m))) (t1, t2) =
         Some \<lparr>df_index = [],
          df_columns = [(t1, []), (t1 @ ''_returns'', []), (t2, []), (t2 @ ''_returns'', []),
                        (''t1'', []), (''t2'', []), (''t1_returns'', []), (''t2_returns'', [])]\<rparr>"
proof -
  let ?e = "\<lparr>df_index = [],
          df_columns = [(t1, []), (t1 @ ''_returns'', []), (t2, []), (t2 @ ''_returns'', []),
                        (''t1'', []), (''t2'', []), (''t1_returns'', []), (''t2_returns'', [])]\<rparr>"
  have f: "fst (get_data fs t1 t2 m) = Inr ?e"
    using get_data_ok[OF assms(2), of t1 t2] build_disjoint[OF assms(1) assms(3-7)] by simp
  then have "get_data fs t1 t2 m = (Inr ?e, snd (get_data fs t1 t2 m))"
    by (metis prod.collapse)
  then have "map_of (get_data_cache (snd (get_data fs t1 t2 m))) (t1, t2) = Some ?e"
    by (rule get_data_stores)
  then show ?thesis using f by blast
qed

lemma read_frame_A:
  "read_frame sample_files ''A'' =
     Inr \<lparr>df_index = [1, 2, 3],
          df_columns = [(''A'', [Some 10, Some 12, Some 11]),
                        (''A_returns'', [None, Some 2, Some (- 1)])]\<rparr>"
  by (simp add: read_frame_def cache_defs prog_defs sample_files_def Let_def minus_cell_def)

lemma read_frame_C:
  "read_frame sample_files ''C'' =
     Inr \<lparr>df_index = [7, 8],
          df_columns = [(''C'', [Some 5, Some 6]), (''C_returns'', [None, Some 1])]\<rparr>"
  by (simp add: read_frame_def cache_defs prog_defs sample_files_def Let_def minus_cell_def)

theorem disjoint_series_give_empty_dataset_witness:
  "names_ok ''A'' ''C''
   \<and> cache_ok sample_files (snd (get_data sample_files ''A'' ''B'' empty_memo))
   \<and> fst (get_data sample_files ''A'' ''C'' (snd (get_data sample_files ''A'' ''B'' empty_memo))) =
       Inr \<lparr>df_index = [],
            df_columns = [(''A'', []), (''A_returns'', []), (''C'', []), (''C_returns'', []),
                          (''t1'', []), (''t2'', []), (''t1_returns'', []), (''t2_returns'', [])]\<rparr>
   \<and> map_of (get_data_cache (snd (get_data sample_files ''A'' ''C''
               (snd (get_data sample_files ''A'' ''B'' empty_memo))))) (''A'', ''C'') =
       Some \<lparr>df_index = [],
            df_columns = [(''A'', []), (''A_returns'', []), (''C'', []), (''C_returns'', []),
                          (''t1'', []), (''t2'', []), (''t1_returns'', []), (''t2_returns'', [])]\<rparr>"
proof -
  have n: "names_ok ''A'' ''C''" by (simp add: names_ok_def)
  have ok: "cache_ok sample_files (snd (get_data sample_files ''A'' ''B'' empty_memo))"
    using get_data_ok[OF cache_ok_empty] by blast
  show ?thesis
    using disjoint_series_give_empty_dataset[OF n ok read_frame_A read_frame_C] n ok
    by simp
qed

theorem no_common_date_returns_empty_frame:
  "bind_err (read_frame sample_files ''A'') (\<lambda>d. Inr (df_index d)) = Inr [1, 2, 3]
   \<and> bind_err (read_frame sample_files ''C'') (\<lambda>d. Inr (df_index d)) = Inr [7, 8]
   \<and> fst (get_data sample_files ''A'' ''C'' empty_memo) =
       Inr \<lparr>df_index = [],
            df_columns = [(''A'', []), (''A_returns'', []), (''C'', []), (''C_returns'', []),
                          (''t1'', []), (''t2'', []), (''t1_returns'', []), (''t2_returns'', [])]\<rparr>"
proof -
  have "fst (get_data sample_files ''A'' ''C'' empty_memo) =
       Inr \<lparr>df_index = [],
            df_columns = [(''A'', []), (''A_returns'', []), (''C'', []), (''C_returns'', []),
                          (''t1'', []), (''t2'', []), (''t1_returns'', []), (''t2_returns'', [])]\<rparr>"
    by (simp add: frame_defs cache_defs prog_defs sample_files_def Let_def)
  then show ?thesis by (simp add: read_frame_A read_frame_C)
qed

subsection \<open>How often a series is read\<close>

lemma load_ticker_body_eq:
  "load_ticker_body fs t m = (read_frame fs t, m\<lparr>reads := t # reads m\<rparr>)"
proof -
  have "snd (load_ticker_body fs t m) = m\<lparr>reads := t # reads m\<rparr>"
    by (simp add: load_ticker_body_def Let_def split: option.splits)
  then show ?thesis using read_frame_body[of fs t m] by (metis prod.collapse)
qed

lemma load_ticker_cases:
  obtains (hit) df where
      "map_of (load_ticker_cache m) t = Some df"
      "load_ticker fs t m =
         (Inr df, m\<lparr>load_ticker_cache :=
                    (t, df) # filter (\<lambda>e. fst e \<noteq> t) (load_ticker_cache m)\<rparr>)"
  | (miss_err) e where
      "map_of (load_ticker_cache m) t = None" "read_frame fs t = Inl e"
      "load_ticker fs t m = (Inl e, m\<lparr>reads := t # reads m\<rparr>)"
  | (miss_ok) df where
      "map_of (load_ticker_cache m) t = None" "read_frame fs t = Inr df"
      "load_ticker fs t m =
         (Inr df, m\<lparr>reads := t # reads m,
                    load_ticker_cache := lru_store t df (load_ticker_cache m)\<rparr>)"
proof (cases "map_of (load_ticker_cache m) t")
  case None
  then have miss: "lru_hit t (load_ticker_cache m) = None" by (simp add: lru_hit_None_iff)
  show thesis
  proof (cases "read_frame fs t")
    case (Inl e)
    then show thesis using None miss miss_err[of e]
      by (simp add: load_ticker_def load_ticker_body_eq)
  next
    case (Inr df)
    then show thesis using None miss miss_ok[of df]
      by (simp add: load_ticker_def load_ticker_body_eq)
  qed
next
  case (Some df)
  then show thesis using hit[of df] lru_hit_present[OF Some]
    by (simp add: load_ticker_def)
qed

lemma loads_snoc: "loads fs (ts @ [t]) m = snd (load_ticker fs t (loads fs ts m))"
  by (simp add: loads_def)

lemma loads_cache_ok: "cache_ok fs m \<Longrightarrow> cache_ok fs (loads fs ts m)"
  unfolding loads_def by (induction ts arbitrary: m) (simp_all add: load_ticker_ok)

lemma has_data_iff: "has_data fs t \<longleftrightarrow> (\<exists>df. read_frame fs t = Inr df)"
  by (simp add: has_data_def split: sum.splits)

lemma loads_invariant:
  assumes "card (set ts) \<le> maxsize"
  shows "distinct (map fst (load_ticker_cache (loads fs ts empty_memo)))
     \<and> fst ` set (load_ticker_cache (loads fs ts empty_memo)) = {t \<in> set ts. has_data fs t}
     \<and> (\<forall>x. has_data fs x \<longrightarrow>
           count_list (reads (loads fs ts empty_memo)) x = (if x \<in> set ts then 1 else 0))"
  using assms
proof (induction ts rule: rev_induct)
  case Nil
  show ?case by (simp add: loads_def empty_memo_def)
next
  case (snoc t ts)
  let ?M = "loads fs ts empty_memo"
  let ?c = "load_ticker_cache ?M"
  have "card (set ts) \<le> card (set (ts @ [t]))"
    by (rule card_mono) auto
  then have cap: "card (set ts) \<le> maxsize" using snoc.prems by simp
  have dist: "distinct (map fst ?c)"
    and keys: "fst ` set ?c = {x \<in> set ts. has_data fs x}"
    and cnt: "\<And>x. has_data fs x \<Longrightarrow> count_list (reads ?M) x = (if x \<in> set ts then 1 else 0)"
    using snoc.IH[OF cap] by blast+
  show ?case
  proof (cases rule: load_ticker_cases[of ?M t fs])
    case (hit df)
    have tk: "t \<in> fst ` set ?c" using hit(1) by (metis map_of_eq_None_iff option.distinct(1))
    then have tin: "t \<in> set ts" using keys by auto
    have s: "set (ts @ [t]) = set ts" using tin by auto
    have new: "load_ticker_cache (loads fs (ts @ [t]) empty_memo) =
        (t, df) # filter (\<lambda>e. fst e \<noteq> t) ?c"
      and rd: "reads (loads fs (ts @ [t]) empty_memo) = reads ?M"
      using hit(2) by (simp_all add: loads_snoc)
    have d': "distinct (map fst ((t, df) # filter (\<lambda>e. fst e \<noteq> t) ?c))"
      using dist by (auto simp: distinct_map_filter)
    have k': "fst ` set ((t, df) # filter (\<lambda>e. fst e \<noteq> t) ?c) = fst ` set ?c"
      using tk by force
    show ?thesis unfolding new rd s using d' k' keys cnt by simp
  next
    case (miss_err e)
    have nd: "\<not> has_data fs t" using miss_err(2) by (simp add: has_data_def)
    have new: "load_ticker_cache (loads fs (ts @ [t]) empty_memo) = ?c"
      and rd: "reads (loads fs (ts @ [t]) empty_memo) = t # reads ?M"
      using miss_err(3) by (simp_all add: loads_snoc)
    have k': "{x \<in> set (ts @ [t]). has_data fs x} = {x \<in> set ts. has_data fs x}"
      using nd by auto
    have c': "count_list (t # reads ?M) x = (if x \<in> set (ts @ [t]) then 1 else 0)"
      if "has_data fs x" for x
    proof -
      have "x \<noteq> t" using that nd by auto
      then show ?thesis using cnt[OF that] by simp
    qed
    show ?thesis unfolding new rd k' using dist keys c' by simp
  next
    case (miss_ok df)
    have hd: "has_data fs t" using miss_ok(2) by (simp add: has_data_def)
    have tk: "t \<notin> fst ` set ?c" using miss_ok(1) by (simp add: map_of_eq_None_iff)
    then have tnin: "t \<notin> set ts" using keys hd by auto
    have "length ?c = card (fst ` set ?c)"
      using dist distinct_card[of "map fst ?c"] by simp
    also have "\<dots> \<le> card (set ts)"
      unfolding keys by (rule card_mono) auto
    also have "\<dots> < card (set (ts @ [t]))"
      using tnin by simp
    finally have "length ?c < maxsize" using snoc.prems by simp
    then have st: "lru_store t df ?c = (t, df) # ?c" by (simp add: lru_store_def)
    have new: "load_ticker_cache (loads fs (ts @ [t]) empty_memo) = (t, df) # ?c"
      and rd: "reads (loads fs (ts @ [t]) empty_memo) = t # reads ?M"
      using miss_ok(3) st by (simp_all add: loads_snoc)
    have k': "fst ` set ((t, df) # ?c) = {x \<in> set (ts @ [t]). has_data fs x}"
      using keys hd by auto
    have c': "count_list (t # reads ?M) x = (if x \<in> set (ts @ [t]) then 1 else 0)"
      if "has_data fs x" for x
      using cnt[OF that] cnt[OF hd] tnin by auto
    show ?thesis unfolding new rd using dist tk k' c' by simp
  qed
qed

lemma loads_within_capacity:
  assumes "card (set ts) \<le> maxsize" and "has_data fs t"
  shows "count_list (reads (loads fs ts empty_memo)) t = (if t \<in> set ts then 1 else 0)"
    and "t \<in> set ts \<Longrightarrow>
           reads (snd (load_ticker fs t (loads fs ts empty_memo))) = reads (loads fs ts empty_memo)"
proof -
  let ?M = "loads fs ts empty_memo"
  have keys: "fst ` set (load_ticker_cache ?M) = {x \<in> set ts. has_data fs x}"
    and cnt: "count_list (reads ?M) t = (if t \<in> set ts then 1 else 0)"
    using loads_invariant[OF assms(1), of fs] assms(2) by blast+
  show "count_list (reads ?M) t = (if t \<in> set ts then 1 else 0)" by (rule cnt)
  show "reads (snd (load_ticker fs t ?M)) = reads ?M" if "t \<in> set ts"
  proof -
    have "t \<in> fst ` set (load_ticker_cache ?M)" using keys assms(2) that by simp
    then have "map_of (load_ticker_cache ?M) t \<noteq> None" by (simp add: map_of_eq_None_iff)
    then show ?thesis by (cases rule: load_ticker_cases[of ?M t fs]) simp_all
  qed
qed

lemma default_tickers_fit:
  assumes "set ts \<subseteq> set DEFAULT_TICKERS"
  shows "card (set ts) \<le> maxsize"
proof -
  have "card (set ts) \<le> card (set DEFAULT_TICKERS)"
    using assms by (intro card_mono) simp_all
  also have "\<dots> \<le> length DEFAULT_TICKERS" by (rule card_length)
  also have "\<dots> \<le> maxsize" by (simp add: DEFAULT_TICKERS_def maxsize_def)
  finally show ?thesis .
qed

text \<open>
  C4. Over any sequence of loads of the dashboard's tickers from the start of the
  process, a ticker with data is read when it is first asked for and never again: its
  file has been read once if the ticker occurs in the sequence and not at all
  otherwise. Every call returns the frame read from the file, and a further call for a
  ticker already asked for returns that frame from the cache without reading. (The
  cache holds 128 entries and the dashboard has five tickers, so nothing is evicted.)
\<close>

theorem series_read_once:
  assumes "set ts \<subseteq> set DEFAULT_TICKERS" and "has_data fs t"
  shows "count_list (reads (loads fs ts empty_memo)) t = (if t \<in> set ts then 1 else 0)
     \<and> (\<forall>i<length ts. fst (load_ticker fs (ts ! i) (loads fs (take i ts) empty_memo)) =
                          read_frame fs (ts ! i))
     \<and> (t \<in> set ts \<longrightarrow>
          fst (load_ticker fs t (loads fs ts empty_memo)) = read_frame fs t
          \<and> reads (snd (load_ticker fs t (loads fs ts empty_memo))) =
              reads (loads fs ts empty_memo))"
proof -
  have cap: "card (set ts) \<le> maxsize" using assms(1) by (rule default_tickers_fit)
  have val: "fst (load_ticker fs u (loads fs us empty_memo)) = read_frame fs u" for u us
    using load_ticker_ok[OF loads_cache_ok[OF cache_ok_empty]] by blast
  show ?thesis
    using loads_within_capacity[OF cap assms(2)] val by blast
qed

lemma has_data_AAPL: "has_data sample_files ''AAPL''"
  by (simp add: has_data_def read_frame_def cache_defs prog_defs sample_files_def Let_def)

theorem series_read_once_witness:
  "set [''AAPL'', ''GOOG'', ''AAPL''] \<subseteq> set DEFAULT_TICKERS \<and> has_data sample_files ''AAPL''
   \<and> count_list (reads (loads sample_files [''AAPL'', ''GOOG'', ''AAPL''] empty_memo)) ''AAPL'' = 1
   \<and> reads (snd (load_ticker sample_files ''AAPL''
               (loads sample_files [''AAPL'', ''GOOG'', ''AAPL''] empty_memo))) =
       reads (loads sample_files [''AAPL'', ''GOOG'', ''AAPL''] empty_memo)"
proof -
  have c: "set [''AAPL'', ''GOOG'', ''AAPL''] \<subseteq> set DEFAULT_TICKERS"
    by (simp add: DEFAULT_TICKERS_def)
  have i: "''AAPL'' \<in> set [''AAPL'', ''GOOG'', ''AAPL'']" by simp
  show ?thesis
    using series_read_once[OF c has_data_AAPL] c has_data_AAPL i by simp
qed

subsection \<open>The columns of a built dataset\<close>

lemma getitem_name: "getitem df k = Inr c \<Longrightarrow> k \<in> fst ` set (df_columns df)"
proof -
  assume a: "getitem df k = Inr c"
  have "filter (\<lambda>c. fst c = k) (df_columns df) \<noteq> []"
    using a by (auto simp: getitem_def)
  then obtain x where "x \<in> set (filter (\<lambda>c. fst c = k) (df_columns df))"
    by (meson last_in_set)
  then show ?thesis by force
qed

lemma map_fst_replace:
  "map fst (map (\<lambda>c. if fst c = k then (k, v) else c) xs) = map fst xs"
  by (induction xs) auto

lemma setitem_names:
  "fst ` set (df_columns (setitem df k v)) = insert k (fst ` set (df_columns df))"
proof (cases "k \<in> fst ` set (df_columns df)")
  case True
  have "fst ` set (map (\<lambda>c. if fst c = k then (k, v) else c) (df_columns df)) =
      set (map fst (map (\<lambda>c. if fst c = k then (k, v) else c) (df_columns df)))"
    by (simp only: set_map)
  also have "\<dots> = fst ` set (df_columns df)"
    unfolding map_fst_replace by simp
  finally show ?thesis using True by (auto simp: setitem_def)
next
  case False
  then show ?thesis by (auto simp: setitem_def)
qed

lemma join_frames_names:
  assumes "join_frames t1 t2 df1 df2 = Inr df"
  shows "{t1, t2, t1 @ ''_returns'', t2 @ ''_returns'',
          ''t1'', ''t2'', ''t1_returns'', ''t2_returns''} \<subseteq> fst ` set (df_columns df)"
proof -
  obtain c where c: "concat_axis1 df1 df2 = Inr c"
    using assms unfolding join_frames_def by (cases "concat_axis1 df1 df2") simp_all
  define d1 where "d1 = dropna c"
  obtain c1 where g1: "getitem d1 t1 = Inr c1"
    using assms c unfolding join_frames_def d1_def
    by (cases "getitem (dropna c) t1") (simp_all add: Let_def)
  define d2 where "d2 = setitem d1 ''t1'' c1"
  obtain c2 where g2: "getitem d2 t2 = Inr c2"
    using assms c g1 unfolding join_frames_def d1_def d2_def
    by (cases "getitem (setitem (dropna c) ''t1'' c1) t2") (simp_all add: Let_def)
  define d3 where "d3 = setitem d2 ''t2'' c2"
  obtain c3 where g3: "getitem d3 (t1 @ ''_returns'') = Inr c3"
    using assms c g1 g2 unfolding join_frames_def d1_def d2_def d3_def
    by (cases "getitem (setitem (setitem (dropna c) ''t1'' c1) ''t2'' c2) (t1 @ ''_returns'')")
       (simp_all add: Let_def)
  define d4 where "d4 = setitem d3 ''t1_returns'' c3"
  obtain c4 where g4: "getitem d4 (t2 @ ''_returns'') = Inr c4"
    using assms c g1 g2 g3 unfolding join_frames_def d1_def d2_def d3_def d4_def
    by (cases "getitem (setitem (setitem (setitem (dropna c) ''t1'' c1) ''t2'' c2) ''t1_returns'' c3)
                 (t2 @ ''_returns'')")
       (simp_all add: Let_def)
  have df: "df = setitem d4 ''t2_returns'' c4"
    using assms c g1 g2 g3 g4 unfolding join_frames_def d1_def d2_def d3_def d4_def
    by (simp add: Let_def)
  have n1: "t1 \<in> fst ` set (df_columns d1)" using g1 by (rule getitem_name)
  have n2: "t2 \<in> fst ` set (df_columns d2)" using g2 by (rule getitem_name)
  have n3: "t1 @ ''_returns'' \<in> fst ` set (df_columns d3)" using g3 by (rule getitem_name)
  have n4: "t2 @ ''_returns'' \<in> fst ` set (df_columns d4)" using g4 by (rule getitem_name)
  have s2: "fst ` set (df_columns d2) = insert ''t1'' (fst ` set (df_columns d1))"
    unfolding d2_def by (rule setitem_names)
  have s3: "fst ` set (df_columns d3) = insert ''t2'' (fst ` set (df_columns d2))"
    unfolding d3_def by (rule setitem_names)
  have s4: "fst ` set (df_columns d4) = insert ''t1_returns'' (fst ` set (df_columns d3))"
    unfolding d4_def by (rule setitem_names)
  have s5: "fst ` set (df_columns df) = insert ''t2_returns'' (fst ` set (df_columns d4))"
    unfolding df by (rule setitem_names)
  show ?thesis using n1 n2 n3 n4 unfolding s5 s4 s3 s2 by blast
qed

lemma select_columns_total:
  assumes "set ks \<subseteq> fst ` set (df_columns df)"
  shows "\<exists>d. select_columns df ks = Inr d"
  using assms by (auto simp: select_columns_def list_all_iff)

lemma build_columns_exist:
  assumes "build fs t1 t2 = Inr df"
  shows "\<exists>data. select_columns df [''t1'', ''t2'', ''t1_returns'', ''t2_returns''] = Inr data"
    and "\<exists>d. select_columns df [t1, t2, t1 @ ''_returns'', t2 @ ''_returns''] = Inr d"
proof -
  obtain df1 where r1: "read_frame fs t1 = Inr df1"
    using assms unfolding build_unfold by (cases "read_frame fs t1") simp_all
  obtain df2 where r2: "read_frame fs t2 = Inr df2"
    using assms r1 unfolding build_unfold by (cases "read_frame fs t2") simp_all
  have "join_frames t1 t2 df1 df2 = Inr df"
    using assms r1 r2 unfolding build_unfold by simp
  note n = join_frames_names[OF this]
  show "\<exists>data. select_columns df [''t1'', ''t2'', ''t1_returns'', ''t2_returns''] = Inr data"
    by (rule select_columns_total) (use n in auto)
  show "\<exists>d. select_columns df [t1, t2, t1 @ ''_returns'', t2 @ ''_returns''] = Inr d"
    by (rule select_columns_total) (use n in auto)
qed

lemma update_total:
  assumes ok: "cache_ok fs (caches s)"
  shows "case build fs (ticker1_value s) (ticker2_value s) of
           Inl e \<Rightarrow> fst (update to_str fs s) = Some e
         | Inr df \<Rightarrow> fst (update to_str fs s) = None"
proof (cases "build fs (ticker1_value s) (ticker2_value s)")
  case (Inl e)
  then have g: "fst (get_data fs (ticker1_value s) (ticker2_value s) (caches s)) = Inl e"
    using get_data_ok[OF ok] by simp
  have "fst (update to_str fs s) = Some e"
    by (cases rule: update_cases[of fs s to_str]) (use g in simp_all)
  then show ?thesis using Inl by simp
next
  case (Inr df)
  then have g: "fst (get_data fs (ticker1_value s) (ticker2_value s) (caches s)) = Inr df"
    using get_data_ok[OF ok] by simp
  obtain data d where
    "select_columns df [''t1'', ''t2'', ''t1_returns'', ''t2_returns''] = Inr data"
    "select_columns df [ticker1_value s, ticker2_value s,
        ticker1_value s @ ''_returns'', ticker2_value s @ ''_returns''] = Inr d"
    using build_columns_exist[OF Inr] by blast
  then have "fst (update to_str fs s) = None"
    using update_succeeds(1)[OF ok Inr] by blast
  then show ?thesis using Inr by simp
qed

lemma run_selections_keep:
  "ticker1_value (run to_str fs (map SelectionChanged sels) s) = ticker1_value s"
  "ticker2_value (run to_str fs (map SelectionChanged sels) s) = ticker2_value s"
  "source_data (run to_str fs (map SelectionChanged sels) s) = source_data s"
  unfolding run_def
  by (induction sels arbitrary: s; simp add: selection_change_keeps)+

lemma selection_change_on_hit:
  assumes g: "get_data fs (ticker1_value s) (ticker2_value s) (caches s) = (Inr df, m)"
  shows "handle to_str fs (SelectionChanged sel) s =
     (case bind_err (selection_view df sel)
             (\<lambda>view. summary to_str view (ticker1_value s) (ticker2_value s)) of
        Inl e \<Rightarrow> (Some e, s\<lparr>source_selected := sel, caches := m\<rparr>)
      | Inr txt \<Rightarrow> (None, s\<lparr>source_selected := sel, caches := m, stats_text := txt\<rparr>))"
proof (cases "sel = []")
  case True
  then show ?thesis using g
    by (cases "select_columns df [ticker1_value s, ticker2_value s,
              ticker1_value s @ ''_returns'', ticker2_value s @ ''_returns'']")
       (simp_all add: selection_change_def selection_view_def summary_def update_stats_def)
next
  case False
  show ?thesis
  proof (cases "iloc df sel")
    case (Inl e)
    then show ?thesis using g False
      by (simp add: selection_change_def selection_view_def)
  next
    case (Inr view)
    then show ?thesis using g False
      by (cases "select_columns view [ticker1_value s, ticker2_value s,
              ticker1_value s @ ''_returns'', ticker2_value s @ ''_returns'']")
         (simp_all add: selection_change_def selection_view_def summary_def update_stats_def)
  qed
qed

lemma selection_change_on_error:
  assumes g: "fst (get_data fs (ticker1_value s) (ticker2_value s) (caches s)) = Inl e"
  shows "handle to_str fs (SelectionChanged sel) s =
     (Some e, s\<lparr>source_selected := sel,
               caches := snd (get_data fs (ticker1_value s) (ticker2_value s) (caches s))\<rparr>)"
proof -
  obtain m where "get_data fs (ticker1_value s) (ticker2_value s) (caches s) = (Inl e, m)"
    using g by (metis prod.collapse)
  then show ?thesis by (simp add: selection_change_def)
qed

text \<open>
  C10. Take any identifier change, and let \<open>t1\<close>, \<open>t2\<close> be the tickers it leaves. When
  the dataset of the pair cannot be built, the change raises and so does every selection
  change after it: no statistics are computed. Otherwise the change completes and
  publishes the four role columns of the built dataset \<open>df\<close>, and for every sequence of
  selection changes that follows: the published dataset and the tickers stay as they
  are; the call of \<^verbatim>\<open>get_data\<close> returns that same \<open>df\<close> from the cache, without
  running its body and without reading a file; and the statistics text of the next
  selection change is the summary of the rows of \<open>df\<close> the selection stands for.
\<close>

theorem selections_summarise_published_dataset:
  assumes "identifier_change ev" and "cache_ok fs (caches s0)"
  shows "let s1 = snd (handle to_str fs ev s0); t1 = ticker1_value s1; t2 = ticker2_value s1 in
     (case build fs t1 t2 of
        Inl e \<Rightarrow>
          fst (handle to_str fs ev s0) = Some e
          \<and> (\<forall>sels sel.
                let s2 = run to_str fs (map SelectionChanged sels) s1 in
                handle to_str fs (SelectionChanged sel) s2 =
                  (Some e, s2\<lparr>source_selected := sel,
                             caches := snd (get_data fs t1 t2 (caches s2))\<rparr>))
      | Inr df \<Rightarrow>
          fst (handle to_str fs ev s0) = None
          \<and> select_columns df [''t1'', ''t2'', ''t1_returns'', ''t2_returns''] = Inr (source_data s1)
          \<and> (\<forall>sels sel.
                let s2 = run to_str fs (map SelectionChanged sels) s1;
                    r = get_data fs t1 t2 (caches s2)
                in fst r = Inr df
                   \<and> builds (snd r) = builds (caches s1) \<and> reads (snd r) = reads (caches s1)
                   \<and> source_data s2 = source_data s1
                   \<and> ticker1_value s2 = t1 \<and> ticker2_value s2 = t2
                   \<and> handle to_str fs (SelectionChanged sel) s2 =
                       (case bind_err (selection_view df sel) (\<lambda>view. summary to_str view t1 t2) of
                          Inl e \<Rightarrow> (Some e, s2\<lparr>source_selected := sel, caches := snd r\<rparr>)
                        | Inr txt \<Rightarrow>
                            (None, s2\<lparr>source_selected := sel, caches := snd r,
                                      stats_text := txt\<rparr>))))"
proof -
  define s1 where "s1 = snd (handle to_str fs ev s0)"
  define t1 where "t1 = ticker1_value s1"
  define t2 where "t2 = ticker2_value s1"
  obtain sx where sx: "handle to_str fs ev s0 = update to_str fs sx" "caches sx = caches s0"
    using assms(1) by (cases ev) (auto simp: ticker1_change_def ticker2_change_def)
  have okx: "cache_ok fs (caches sx)" using assms(2) sx(2) by simp
  have tx: "ticker1_value sx = t1" "ticker2_value sx = t2"
    unfolding t1_def t2_def s1_def sx(1) by (simp_all add: update_keeps)
  have ok1: "cache_ok fs (caches s1)"
    unfolding s1_def using assms(2) by (rule handle_cache_ok)
  have ok2: "cache_ok fs (caches (run to_str fs (map SelectionChanged sels) s1))" for sels
    using ok1 by (rule run_cache_ok)
  have k2: "ticker1_value (run to_str fs (map SelectionChanged sels) s1) = t1"
    "ticker2_value (run to_str fs (map SelectionChanged sels) s1) = t2" for sels
    unfolding t1_def t2_def by (simp_all add: run_selections_keep)
  have "case build fs t1 t2 of
        Inl e \<Rightarrow>
          fst (handle to_str fs ev s0) = Some e
          \<and> (\<forall>sels sel.
                let s2 = run to_str fs (map SelectionChanged sels) s1 in
                handle to_str fs (SelectionChanged sel) s2 =
                  (Some e, s2\<lparr>source_selected := sel,
                             caches := snd (get_data fs t1 t2 (caches s2))\<rparr>))
      | Inr df \<Rightarrow>
          fst (handle to_str fs ev s0) = None
          \<and> select_columns df [''t1'', ''t2'', ''t1_returns'', ''t2_returns''] = Inr (source_data s1)
          \<and> (\<forall>sels sel.
                let s2 = run to_str fs (map SelectionChanged sels) s1;
                    r = get_data fs t1 t2 (caches s2)
                in fst r = Inr df
                   \<and> builds (snd r) = builds (caches s1) \<and> reads (snd r) = reads (caches s1)
                   \<and> source_data s2 = source_data s1
                   \<and> ticker1_value s2 = t1 \<and> ticker2_value s2 = t2
                   \<and> handle to_str fs (SelectionChanged sel) s2 =
                       (case bind_err (selection_view df sel) (\<lambda>view. summary to_str view t1 t2) of
                          Inl e \<Rightarrow> (Some e, s2\<lparr>source_selected := sel, caches := snd r\<rparr>)
                        | Inr txt \<Rightarrow>
                            (None, s2\<lparr>source_selected := sel, caches := snd r,
                                      stats_text := txt\<rparr>)))"
  proof (cases "build fs t1 t2")
    case (Inl e)
    have f: "fst (handle to_str fs ev s0) = Some e"
      using update_total[OF okx, of to_str] Inl unfolding tx sx(1) by simp
    have h: "handle to_str fs (SelectionChanged sel) (run to_str fs (map SelectionChanged sels) s1) =
        (Some e, (run to_str fs (map SelectionChanged sels) s1)\<lparr>source_selected := sel,
           caches := snd (get_data fs t1 t2 (caches (run to_str fs (map SelectionChanged sels) s1)))\<rparr>)"
      for sels sel
    proof -
      let ?s2 = "run to_str fs (map SelectionChanged sels) s1"
      have "fst (get_data fs (ticker1_value ?s2) (ticker2_value ?s2) (caches ?s2)) = Inl e"
        using get_data_ok[OF ok2[of sels], of t1 t2] Inl unfolding k2 by simp
      from selection_change_on_error[OF this, of to_str sel] show ?thesis
        unfolding k2 .
    qed
    show ?thesis unfolding Inl using f h by (simp add: Let_def del: handle.simps)
  next
    case (Inr df)
    have f: "fst (handle to_str fs ev s0) = None"
      using update_total[OF okx, of to_str] Inr unfolding tx sx(1) by simp
    then have u: "update to_str fs sx = (None, s1)"
      unfolding s1_def sx(1) by (metis prod.collapse)
    obtain df' where p': "published_in_cache df' s1 s1"
      using published_after_update[OF u] by blast
    then have "map_of (get_data_cache (caches s1)) (t1, t2) = Some df'"
      unfolding published_in_cache_def t1_def t2_def by blast
    then have "((t1, t2), df') \<in> set (get_data_cache (caches s1))" by (rule map_of_SomeD)
    then have "build fs t1 t2 = Inr df'" using cache_okD(2)[OF ok1] by blast
    then have "df' = df" using Inr by simp
    then have p: "published_in_cache df s1 s1" using p' by simp
    have pub: "select_columns df [''t1'', ''t2'', ''t1_returns'', ''t2_returns''] = Inr (source_data s1)"
      using p unfolding published_in_cache_def by blast
    have step: "let s2 = run to_str fs (map SelectionChanged sels) s1;
                    r = get_data fs t1 t2 (caches s2)
                in fst r = Inr df
                   \<and> builds (snd r) = builds (caches s1) \<and> reads (snd r) = reads (caches s1)
                   \<and> source_data s2 = source_data s1
                   \<and> ticker1_value s2 = t1 \<and> ticker2_value s2 = t2
                   \<and> handle to_str fs (SelectionChanged sel) s2 =
                       (case bind_err (selection_view df sel) (\<lambda>view. summary to_str view t1 t2) of
                          Inl e \<Rightarrow> (Some e, s2\<lparr>source_selected := sel, caches := snd r\<rparr>)
                        | Inr txt \<Rightarrow>
                            (None, s2\<lparr>source_selected := sel, caches := snd r,
                                      stats_text := txt\<rparr>))" for sels sel
    proof -
      let ?s2 = "run to_str fs (map SelectionChanged sels) s1"
      have q: "published_in_cache df s1 ?s2" using published_run[OF p] .
      have q1: "map_of (get_data_cache (caches ?s2)) (t1, t2) = Some df"
        using q unfolding published_in_cache_def k2 by blast
      have q3: "source_data ?s2 = source_data s1"
        and q5: "builds (caches ?s2) = builds (caches s1)" "reads (caches ?s2) = reads (caches s1)"
        using q unfolding published_in_cache_def by blast+
      let ?m = "(caches ?s2)\<lparr>get_data_cache :=
          ((t1, t2), df) # filter (\<lambda>e. fst e \<noteq> (t1, t2)) (get_data_cache (caches ?s2))\<rparr>"
      have hit: "get_data fs t1 t2 (caches ?s2) = (Inr df, ?m)"
        using get_data_hit[OF q1, of fs] .
      have hit': "get_data fs (ticker1_value ?s2) (ticker2_value ?s2) (caches ?s2) = (Inr df, ?m)"
        unfolding k2 by (rule hit)
      have h: "handle to_str fs (SelectionChanged sel) ?s2 =
         (case bind_err (selection_view df sel) (\<lambda>view. summary to_str view t1 t2) of
            Inl e \<Rightarrow> (Some e, ?s2\<lparr>source_selected := sel, caches := ?m\<rparr>)
          | Inr txt \<Rightarrow> (None, ?s2\<lparr>source_selected := sel, caches := ?m, stats_text := txt\<rparr>))"
        using selection_change_on_hit[OF hit', of to_str sel] unfolding k2 .
      have b: "builds ?m = builds (caches s1)" "reads ?m = reads (caches s1)"
        using q5 by simp_all
      show ?thesis
        unfolding Let_def hit fst_conv snd_conv
        by (intro conjI) (rule refl b q3 k2 h)+
    qed
    show ?thesis unfolding Inr using f pub step by (simp del: handle.simps)
  qed
  then show ?thesis unfolding Let_def s1_def[symmetric] t1_def[symmetric] t2_def[symmetric] .
qed

lemma summary_first_row_aapl_brcm:
  "bind_err (selection_view aapl_brcm [0]) (\<lambda>view. summary tally view ''AAPL'' ''BRCM'') =
     Inr ''AAPL:* BRCM:* AAPL_returns:* BRCM_returns:* ''"
  by (simp add: selection_view_def iloc_def take_rows_def aapl_brcm_def summary_def
        select_columns_def describe_def tally_def count_one)

theorem selections_summarise_published_dataset_witness:
  "identifier_change (Ticker2Changed ''BRCM'') \<and> cache_ok sample_files (caches sample_dashboard)
   \<and> build sample_files ''AAPL'' ''BRCM'' = Inr aapl_brcm
   \<and> fst (handle tally sample_files (SelectionChanged [0])
        (run tally sample_files (map SelectionChanged [[0], []])
          (snd (handle tally sample_files (Ticker2Changed ''BRCM'') sample_dashboard)))) = None
   \<and> stats_text (snd (handle tally sample_files (SelectionChanged [0])
        (run tally sample_files (map SelectionChanged [[0], []])
          (snd (handle tally sample_files (Ticker2Changed ''BRCM'') sample_dashboard))))) =
       ''AAPL:* BRCM:* AAPL_returns:* BRCM_returns:* ''"
proof -
  let ?s1 = "snd (handle tally sample_files (Ticker2Changed ''BRCM'') sample_dashboard)"
  let ?s2 = "run tally sample_files (map SelectionChanged [[0], []]) ?s1"
  have i: "identifier_change (Ticker2Changed ''BRCM'')" by simp
  have p: "(ticker1_value ?s1, ticker2_value ?s1) = (''AAPL'', ''BRCM'')"
    unfolding handle_pair by (simp add: sample_tickers)
  then have t: "ticker1_value ?s1 = ''AAPL''" "ticker2_value ?s1 = ''BRCM''" by simp_all
  note th = selections_summarise_published_dataset[OF i sample_cache_ok, of tally]
  have "\<forall>sels sel.
          let s2 = run tally sample_files (map SelectionChanged sels) ?s1;
              r = get_data sample_files ''AAPL'' ''BRCM'' (caches s2)
          in handle tally sample_files (SelectionChanged sel) s2 =
               (case bind_err (selection_view aapl_brcm sel)
                       (\<lambda>view. summary tally view ''AAPL'' ''BRCM'') of
                  Inl e \<Rightarrow> (Some e, s2\<lparr>source_selected := sel, caches := snd r\<rparr>)
                | Inr txt \<Rightarrow>
                    (None, s2\<lparr>source_selected := sel, caches := snd r, stats_text := txt\<rparr>))"
    using th unfolding Let_def t build_aapl_brcm by (simp del: handle.simps)
  then have "let s2 = ?s2; r = get_data sample_files ''AAPL'' ''BRCM'' (caches s2)
          in handle tally sample_files (SelectionChanged [0]) s2 =
               (case bind_err (selection_view aapl_brcm [0])
                       (\<lambda>view. summary tally view ''AAPL'' ''BRCM'') of
                  Inl e \<Rightarrow> (Some e, s2\<lparr>source_selected := [0], caches := snd r\<rparr>)
                | Inr txt \<Rightarrow>
                    (None, s2\<lparr>source_selected := [0], caches := snd r, stats_text := txt\<rparr>))"
    by blast
  then have "handle tally sample_files (SelectionChanged [0]) ?s2 =
      (None, ?s2\<lparr>source_selected := [0],
         caches := snd (get_data sample_files ''AAPL'' ''BRCM'' (caches ?s2)),
         stats_text := ''AAPL:* BRCM:* AAPL_returns:* BRCM_returns:* ''\<rparr>)"
    unfolding Let_def summary_first_row_aapl_brcm by (simp del: handle.simps)
  then show ?thesis using i sample_cache_ok build_aapl_brcm by (simp del: handle.simps)
qed

end
